theory Spec2Isabelle
  imports
    Main
    "HOL-Library.Word"
    "HOL-Library.Char_ord"
    "HOL-Library.List_Lexorder"
    "HOL-Library.Product_Lexorder"
begin

section \<open>JavaScript values\<close>

text \<open>
  A \<^verbatim>\<open>Buffer\<close> is a list of bytes; \<^typ>\<open>char\<close> is an 8-bit value, so a
  \<^typ>\<open>string\<close> is a byte string. A JavaScript string is a list of UTF-16 code units, and
  its \<^verbatim>\<open>.length\<close> counts code units, not bytes.
\<close>

type_synonym bytes = string
type_synonym jsstring = "16 word list"

text \<open>A string literal of the source whose characters are all ASCII.\<close>

definition str :: "string \<Rightarrow> jsstring" where
  "str s = map (\<lambda>c. of_nat (of_char c)) s"

text \<open>
  \<^verbatim>\<open>Buffer.from(string)\<close> encodes the string as UTF-8: a surrogate pair becomes one
  four-byte sequence, a lone surrogate becomes U+FFFD (EF BF BD).
\<close>

definition replacement :: bytes where
  "replacement = [char_of (0xEF::nat), char_of (0xBF::nat), char_of (0xBD::nat)]"

definition utf8_1 :: "nat \<Rightarrow> bytes" where
  "utf8_1 n =
     (if n < 0x80 then [char_of n]
      else if n < 0x800 then [char_of (0xC0 + n div 64), char_of (0x80 + n mod 64)]
      else if n < 0x10000 then
        [char_of (0xE0 + n div 4096), char_of (0x80 + (n div 64) mod 64), char_of (0x80 + n mod 64)]
      else
        [char_of (0xF0 + n div 262144), char_of (0x80 + (n div 4096) mod 64),
         char_of (0x80 + (n div 64) mod 64), char_of (0x80 + n mod 64)])"

definition is_high_surrogate :: "16 word \<Rightarrow> bool" where
  "is_high_surrogate u = (0xD800 \<le> unat u \<and> unat u < 0xDC00)"

definition is_low_surrogate :: "16 word \<Rightarrow> bool" where
  "is_low_surrogate u = (0xDC00 \<le> unat u \<and> unat u < 0xE000)"

fun utf8 :: "jsstring \<Rightarrow> bytes" where
  "utf8 [] = []"
| "utf8 [u] =
     (if is_high_surrogate u \<or> is_low_surrogate u then replacement else utf8_1 (unat u))"
| "utf8 (u # v # us) =
     (if is_high_surrogate u then
        (if is_low_surrogate v
         then utf8_1 (0x10000 + (unat u - 0xD800) * 1024 + (unat v - 0xDC00)) @ utf8 us
         else replacement @ utf8 (v # us))
      else if is_low_surrogate u then replacement @ utf8 (v # us)
      else utf8_1 (unat u) @ utf8 (v # us))"

text \<open>An exception object: its \<^verbatim>\<open>name\<close>, \<^verbatim>\<open>message\<close> and optional \<^verbatim>\<open>code\<close>.\<close>

datatype js_error =
  JsError (err_name: jsstring) (err_message: jsstring) (err_code: "jsstring option")

definition startsWith :: "jsstring \<Rightarrow> jsstring \<Rightarrow> bool" where
  "startsWith s p = (take (length p) s = p)"

text \<open>\<^verbatim>\<open>String.prototype.trim\<close> removes white space and line terminators at both ends.\<close>

definition is_js_space :: "16 word \<Rightarrow> bool" where
  "is_js_space u =
     (let n = unat u in
      (0x09 \<le> n \<and> n \<le> 0x0D) \<or> n = 0x20 \<or> n = 0xA0 \<or> n = 0x1680
      \<or> (0x2000 \<le> n \<and> n \<le> 0x200A) \<or> n = 0x2028 \<or> n = 0x2029 \<or> n = 0x202F
      \<or> n = 0x205F \<or> n = 0x3000 \<or> n = 0xFEFF)"

definition trim :: "jsstring \<Rightarrow> jsstring" where
  "trim s = rev (dropWhile is_js_space (rev (dropWhile is_js_space s)))"

section \<open>The versioned store\<close>

text \<open>
  The Redis server as the storage client sees it. Block heights are handled as numbers: the
  store keeps \<^verbatim>\<open>latest_block_height\<close> as decimal text and the client hands that
  text back as the maximum score of a range query. A sorted set lists its members with
  their scores. \<open>fault\<close> is a transport failure: while it is set every command is rejected
  with it. The reply of \<^verbatim>\<open>SCAN\<close> (next cursor and keys, for a cursor, a pattern and a
  count) is the server's choice.
\<close>

type_synonym zset = "(bytes \<times> nat) list"

record redis =
  fault :: "js_error option"
  latest_block_height :: "nat option"
  strings :: "bytes \<rightharpoonup> bytes"
  zsets :: "bytes \<Rightarrow> zset"
  scan_reply :: "nat \<Rightarrow> bytes \<Rightarrow> nat \<Rightarrow> nat \<times> bytes list"

text \<open>
  The values the storage client passes around: \<open>Decimal n\<close> is the string holding the
  decimal text of \<open>n\<close>, \<open>Scan\<close> is the object \<^verbatim>\<open>{ iterator, data }\<close>.
\<close>

datatype jsval =
  Undefined
| Null
| Str jsstring
| Decimal nat
| Buffer bytes
| Scan nat "(bytes \<times> jsval) list"

text \<open>A promise that has settled: rejected with an error or fulfilled with a value.\<close>

type_synonym promise = "js_error + jsval"

definition redis_get :: "redis \<Rightarrow> bytes \<Rightarrow> promise" where
  "redis_get r key =
     (case fault r of
        Some e \<Rightarrow> Inl e
      | None \<Rightarrow> Inr (case strings r key of None \<Rightarrow> Null | Some v \<Rightarrow> Buffer v))"

definition redis_get_latest_block_height :: "redis \<Rightarrow> promise" where
  "redis_get_latest_block_height r =
     (case fault r of
        Some e \<Rightarrow> Inl e
      | None \<Rightarrow> Inr (case latest_block_height r of None \<Rightarrow> Null | Some h \<Rightarrow> Decimal h))"

text \<open>
  \<^verbatim>\<open>ZREVRANGEBYSCORE key max -inf LIMIT offset count\<close>: the members with score at most
  \<open>max\<close>, from the highest score to the lowest (equal scores in descending byte order of
  the member), \<open>count\<close> of them after skipping \<open>offset\<close>.
\<close>

definition zrevrangebyscore :: "zset \<Rightarrow> nat \<Rightarrow> nat \<Rightarrow> nat \<Rightarrow> bytes list" where
  "zrevrangebyscore z mx off cnt =
     map snd (take cnt (drop off (rev (sort (map prod.swap (filter (\<lambda>(m, s). s \<le> mx) z))))))"

definition redis_zrevrangebyscore ::
  "redis \<Rightarrow> bytes \<Rightarrow> nat \<Rightarrow> nat \<Rightarrow> nat \<Rightarrow> js_error + bytes list" where
  "redis_zrevrangebyscore r key mx off cnt =
     (case fault r of
        Some e \<Rightarrow> Inl e
      | None \<Rightarrow> Inr (zrevrangebyscore (zsets r key) mx off cnt))"

definition redis_scan :: "redis \<Rightarrow> nat \<Rightarrow> bytes \<Rightarrow> nat \<Rightarrow> js_error + nat \<times> bytes list" where
  "redis_scan r cursor pattern cnt =
     (case fault r of
        Some e \<Rightarrow> Inl e
      | None \<Rightarrow> Inr (scan_reply r cursor pattern cnt))"

section \<open>The storage client: the operations\<close>

text \<open>Destructuring \<^verbatim>\<open>const [x] = reply\<close>: the first element, or \<^verbatim>\<open>undefined\<close>.\<close>

definition first_of :: "bytes list \<Rightarrow> jsval" where
  "first_of reply = (case reply of [] \<Rightarrow> Undefined | x # xs \<Rightarrow> Buffer x)"

definition getLatestBlockHeight :: "redis \<Rightarrow> promise" where
  "getLatestBlockHeight r = redis_get_latest_block_height r"

definition getLatestContractBlockHash :: "redis \<Rightarrow> jsstring \<Rightarrow> nat \<Rightarrow> promise" where
  "getLatestContractBlockHash r contractId blockHeight =
     (case redis_zrevrangebyscore r (utf8 (str ''code:'' @ contractId)) blockHeight 0 1 of
        Inl e \<Rightarrow> Inl e
      | Inr reply \<Rightarrow> Inr (first_of reply))"

definition getContractCode :: "redis \<Rightarrow> jsstring \<Rightarrow> bytes \<Rightarrow> promise" where
  "getContractCode r contractId blockHash =
     redis_get r (utf8 (str ''code:'' @ contractId @ str '':'') @ blockHash)"

definition getLatestAccountBlockHash :: "redis \<Rightarrow> jsstring \<Rightarrow> nat \<Rightarrow> promise" where
  "getLatestAccountBlockHash r accountId blockHeight =
     (case redis_zrevrangebyscore r (utf8 (str ''account:'' @ accountId)) blockHeight 0 1 of
        Inl e \<Rightarrow> Inl e
      | Inr reply \<Rightarrow> Inr (first_of reply))"

definition getAccountData :: "redis \<Rightarrow> jsstring \<Rightarrow> bytes \<Rightarrow> promise" where
  "getAccountData r accountId blockHash =
     redis_get r (utf8 (str ''account-data:'' @ accountId @ str '':'') @ blockHash)"

text \<open>\<^verbatim>\<open>Buffer.from(compKey)\<close> of a buffer is a copy with the same bytes.\<close>

definition getLatestDataBlockHash :: "redis \<Rightarrow> bytes \<Rightarrow> nat \<Rightarrow> promise" where
  "getLatestDataBlockHash r compKey blockHeight =
     (case redis_zrevrangebyscore r (utf8 (str ''data:'') @ compKey) blockHeight 0 1 of
        Inl e \<Rightarrow> Inl e
      | Inr reply \<Rightarrow> Inr (first_of reply))"

definition getData :: "redis \<Rightarrow> bytes \<Rightarrow> bytes \<Rightarrow> promise" where
  "getData r compKey blockHash =
     redis_get r (utf8 (str ''data-value:'') @ compKey @ utf8 (str '':'') @ blockHash)"

section \<open>The storage client: the local cache\<close>

text \<open>
  \<^verbatim>\<open>redisCache = new LRU({ max: 1000 })\<close> is one module-level object. The model keeps its
  entries most recently used first. An entry set with a non-zero \<open>maxAge\<close> records the
  clock reading of the moment it was set and is stale once more than \<open>maxAge\<close>
  milliseconds have passed; \<open>get\<close> drops a stale entry and moves a live one to the front;
  \<open>set\<close> puts the entry at the front and drops the least recently used entries beyond
  the maximum.
\<close>

datatype 'v entry =
  Entry (ekey: jsstring) (evalue: 'v) (enow: int) (emaxAge: int)

type_synonym 'v lru = "'v entry list"

definition LRU_MAX :: nat where
  "LRU_MAX = 1000"

definition BLOCK_INDEX_CACHE_TIME :: int where
  "BLOCK_INDEX_CACHE_TIME = 500"

definition isStale :: "int \<Rightarrow> 'v entry \<Rightarrow> bool" where
  "isStale now e = (emaxAge e \<noteq> 0 \<and> now - enow e > emaxAge e)"

definition lru_get :: "int \<Rightarrow> jsstring \<Rightarrow> 'v lru \<Rightarrow> 'v option \<times> 'v lru" where
  "lru_get now k c =
     (case find (\<lambda>e. ekey e = k) c of
        None \<Rightarrow> (None, c)
      | Some e \<Rightarrow>
          if isStale now e then (None, filter (\<lambda>e'. ekey e' \<noteq> k) c)
          else (Some (evalue e), e # filter (\<lambda>e'. ekey e' \<noteq> k) c))"

definition lru_set :: "int \<Rightarrow> jsstring \<Rightarrow> 'v \<Rightarrow> int \<Rightarrow> 'v lru \<Rightarrow> 'v lru" where
  "lru_set now k v maxAge c =
     take LRU_MAX
       (Entry k v (if maxAge \<noteq> 0 then now else 0) maxAge # filter (\<lambda>e'. ekey e' \<noteq> k) c)"

text \<open>The decimal text of a number, as a template literal prints it.\<close>

fun decimal :: "nat \<Rightarrow> jsstring" where
  "decimal n =
     (if n < 10 then [of_nat (48 + n)]
      else decimal (n div 10) @ [of_nat (48 + n mod 10)])"

declare decimal.simps [simp del]

text \<open>
  The printed form of an argument: \<^verbatim>\<open>prettyBuffer\<close> (module \<^verbatim>\<open>./pretty-buffer\<close>, a
  parameter) for a buffer, the template literal for anything else.
\<close>

definition prettyArg :: "(bytes \<Rightarrow> jsstring) \<Rightarrow> jsval \<Rightarrow> jsstring" where
  "prettyArg prettyBuffer arg =
     (case arg of
        Buffer b \<Rightarrow> prettyBuffer b
      | Str s \<Rightarrow> s
      | Decimal n \<Rightarrow> decimal n
      | Undefined \<Rightarrow> str ''undefined''
      | Null \<Rightarrow> str ''null''
      | Scan i d \<Rightarrow> str ''[object Object]'')"

fun join :: "jsstring \<Rightarrow> jsstring list \<Rightarrow> jsstring" where
  "join sep [] = []"
| "join sep [x] = x"
| "join sep (x # y # ys) = x @ sep @ join sep (y # ys)"

definition cacheKey_of :: "(bytes \<Rightarrow> jsstring) \<Rightarrow> jsstring \<Rightarrow> jsval list \<Rightarrow> jsstring" where
  "cacheKey_of prettyBuffer name args = join (str ''$$'') (name # map (prettyArg prettyBuffer) args)"

text \<open>
  \<^verbatim>\<open>withRedis({ name, cachedExpires }, fn)(...args)\<close>, called when the clock reads \<open>now\<close>,
  the server is in state \<open>r\<close> and the cache holds \<open>c\<close>. The cache stores promises, and a
  promise object is always truthy, so every live entry is a hit. On a miss the promise of
  \<open>fn\<close> goes into the cache before it is awaited, whether it will be fulfilled or rejected.
  The result is the settled promise and the cache afterwards.
\<close>

definition withRedis ::
  "jsstring \<Rightarrow> bool \<Rightarrow> ('s \<Rightarrow> jsval list \<Rightarrow> promise) \<Rightarrow> (bytes \<Rightarrow> jsstring) \<Rightarrow> jsval list
     \<Rightarrow> int \<Rightarrow> 's \<Rightarrow> promise lru \<Rightarrow> promise \<times> promise lru" where
  "withRedis name cachedExpires fn prettyBuffer args now r c =
     (let cacheKey = cacheKey_of prettyBuffer name args in
      case lru_get now cacheKey c of
        (Some cachedPromise, c') \<Rightarrow> (cachedPromise, c')
      | (None, c') \<Rightarrow>
          (let resultPromise = fn r args in
           (resultPromise,
            lru_set now cacheKey resultPromise
              (if cachedExpires then BLOCK_INDEX_CACHE_TIME else 0) c')))"

text \<open>
  The exported operations: each entry of \<^verbatim>\<open>exportsMap\<close> wrapped by \<^verbatim>\<open>withRedis\<close> under its
  own name, with \<^verbatim>\<open>cachedExpires\<close> set for the members of \<^verbatim>\<open>cacheExpiresList\<close>. The
  functions of the table are told apart by their names.
\<close>

definition cacheExpiresList :: "jsstring list" where
  "cacheExpiresList = [str ''getLatestBlockHeight'']"

definition export ::
  "jsstring \<Rightarrow> ('s \<Rightarrow> jsval list \<Rightarrow> promise) \<Rightarrow> (bytes \<Rightarrow> jsstring) \<Rightarrow> jsval list
     \<Rightarrow> int \<Rightarrow> 's \<Rightarrow> promise lru \<Rightarrow> promise \<times> promise lru" where
  "export name fn = withRedis name (name \<in> set cacheExpiresList) fn"

definition exports_getLatestBlockHeight ::
  "(bytes \<Rightarrow> jsstring) \<Rightarrow> int \<Rightarrow> redis \<Rightarrow> promise lru \<Rightarrow> promise \<times> promise lru" where
  "exports_getLatestBlockHeight prettyBuffer =
     export (str ''getLatestBlockHeight'') (\<lambda>r args. getLatestBlockHeight r) prettyBuffer []"

definition exports_getLatestContractBlockHash ::
  "(bytes \<Rightarrow> jsstring) \<Rightarrow> jsstring \<Rightarrow> nat \<Rightarrow> int \<Rightarrow> redis \<Rightarrow> promise lru
     \<Rightarrow> promise \<times> promise lru" where
  "exports_getLatestContractBlockHash prettyBuffer contractId blockHeight =
     export (str ''getLatestContractBlockHash'')
       (\<lambda>r args. getLatestContractBlockHash r contractId blockHeight)
       prettyBuffer [Str contractId, Decimal blockHeight]"

definition exports_getLatestDataBlockHash ::
  "(bytes \<Rightarrow> jsstring) \<Rightarrow> bytes \<Rightarrow> nat \<Rightarrow> int \<Rightarrow> redis \<Rightarrow> promise lru
     \<Rightarrow> promise \<times> promise lru" where
  "exports_getLatestDataBlockHash prettyBuffer compKey blockHeight =
     export (str ''getLatestDataBlockHash'')
       (\<lambda>r args. getLatestDataBlockHash r compKey blockHeight)
       prettyBuffer [Buffer compKey, Decimal blockHeight]"

text \<open>
  \<^verbatim>\<open>getData\<close> as the wrapper calls it, with whatever value the caller passes for the hash:
  \<^verbatim>\<open>Buffer.concat\<close> throws unless every element of the list is a buffer.
\<close>

text \<open>
  The end of the message names what was received: \<^verbatim>\<open>undefined\<close> and \<^verbatim>\<open>null\<close> by name, an
  object by its class, a string by its type and its text in single quotes (cut to 25
  characters and three dots when the quoted text is longer than 28; a text with quotes or
  control characters is escaped by the runtime, which is not followed here).
\<close>

definition shorten :: "jsstring \<Rightarrow> jsstring" where
  "shorten inspected =
     (if length inspected > 28 then take 25 inspected @ str ''...'' else inspected)"

definition received :: "jsval \<Rightarrow> jsstring" where
  "received v =
     (case v of
        Undefined \<Rightarrow> str '' Received undefined''
      | Null \<Rightarrow> str '' Received null''
      | Str s \<Rightarrow>
          str '' Received type string ('' @ shorten (str [CHR 0x27] @ s @ str [CHR 0x27])
          @ str '')''
      | Decimal n \<Rightarrow>
          str '' Received type string ('' @ shorten (str [CHR 0x27] @ decimal n @ str [CHR 0x27])
          @ str '')''
      | Buffer b \<Rightarrow> str '' Received an instance of Buffer''
      | Scan i d \<Rightarrow> str '' Received an instance of Object'')"

definition invalid_concat :: "jsval \<Rightarrow> js_error" where
  "invalid_concat v =
     JsError (str ''TypeError'')
       (str ''The '' @ str [CHR 0x22] @ str ''list[3]'' @ str [CHR 0x22]
          @ str '' argument must be an instance of Buffer or Uint8Array.'' @ received v)
       (Some (str ''ERR_INVALID_ARG_TYPE''))"

definition getData_js :: "redis \<Rightarrow> bytes \<Rightarrow> jsval \<Rightarrow> promise" where
  "getData_js r compKey blockHash =
     (case blockHash of
        Buffer h \<Rightarrow> getData r compKey h
      | v \<Rightarrow> Inl (invalid_concat v))"

definition exports_getData ::
  "(bytes \<Rightarrow> jsstring) \<Rightarrow> bytes \<Rightarrow> jsval \<Rightarrow> int \<Rightarrow> redis \<Rightarrow> promise lru
     \<Rightarrow> promise \<times> promise lru" where
  "exports_getData prettyBuffer compKey blockHash =
     export (str ''getData'') (\<lambda>r args. getData_js r compKey blockHash)
       prettyBuffer [Buffer compKey, blockHash]"

section \<open>The storage client: \<^verbatim>\<open>scanDataKeys\<close>\<close>

text \<open>What \<^verbatim>\<open>!blockHash\<close> tests.\<close>

definition truthy :: "jsval \<Rightarrow> bool" where
  "truthy v =
     (case v of
        Undefined \<Rightarrow> False
      | Null \<Rightarrow> False
      | Str s \<Rightarrow> s \<noteq> []
      | _ \<Rightarrow> True)"

text \<open>
  The callbacks of \<^verbatim>\<open>keys.map\<close> all start before any of them continues: every callback
  runs up to its first \<^verbatim>\<open>await\<close>, which is inside the exported
  \<^verbatim>\<open>getLatestDataBlockHash\<close>, after that call has consulted and filled the cache. So the
  revision lookups pass over the keys first, and the value lookups follow; the model takes
  the value lookups in key order. The entries of both operations carry no \<open>maxAge\<close>, so one
  clock reading serves for all lookups.
\<close>

fun lookup_revisions ::
  "(bytes \<Rightarrow> jsstring) \<Rightarrow> int \<Rightarrow> redis \<Rightarrow> nat \<Rightarrow> bytes list \<Rightarrow> promise lru
     \<Rightarrow> promise list \<times> promise lru" where
  "lookup_revisions pb now r blockHeight [] c = ([], c)"
| "lookup_revisions pb now r blockHeight (compKey # ks) c =
     (case exports_getLatestDataBlockHash pb compKey blockHeight now r c of
        (p, c1) \<Rightarrow>
          (case lookup_revisions pb now r blockHeight ks c1 of
             (ps, c2) \<Rightarrow> (p # ps, c2)))"

fun lookup_values ::
  "(bytes \<Rightarrow> jsstring) \<Rightarrow> int \<Rightarrow> redis \<Rightarrow> (bytes \<times> promise) list \<Rightarrow> promise lru
     \<Rightarrow> promise list \<times> promise lru" where
  "lookup_values pb now r [] c = ([], c)"
| "lookup_values pb now r ((compKey, p) # kps) c =
     (case p of
        Inl e \<Rightarrow>
          (case lookup_values pb now r kps c of (vs, c') \<Rightarrow> (Inl e # vs, c'))
      | Inr blockHash \<Rightarrow>
          if \<not> truthy blockHash then
            (case lookup_values pb now r kps c of (vs, c') \<Rightarrow> (Inr Null # vs, c'))
          else
            (case exports_getData pb compKey blockHash now r c of
               (v, c1) \<Rightarrow>
                 (case lookup_values pb now r kps c1 of (vs, c2) \<Rightarrow> (v # vs, c2))))"

text \<open>\<^verbatim>\<open>Promise.all\<close>: the values in order, or a rejection.\<close>

fun promise_all :: "promise list \<Rightarrow> js_error + jsval list" where
  "promise_all [] = Inr []"
| "promise_all (Inl e # ps) = Inl e"
| "promise_all (Inr v # ps) = (case promise_all ps of Inl e \<Rightarrow> Inl e | Inr vs \<Rightarrow> Inr (v # vs))"

text \<open>
  \<^verbatim>\<open>scanDataKeys(contractId, blockHeight, keyPattern, iterator, limit)\<close>. The cursor is
  handled as a number. \<^verbatim>\<open>'data:'.length\<close> and \<^verbatim>\<open>contractId.length\<close> count the code units
  of the strings, and \<^verbatim>\<open>slice\<close> drops that many bytes of the key.
\<close>

definition scanDataKeys ::
  "(bytes \<Rightarrow> jsstring) \<Rightarrow> int \<Rightarrow> redis \<Rightarrow> jsstring \<Rightarrow> nat \<Rightarrow> jsstring \<Rightarrow> nat \<Rightarrow> nat
     \<Rightarrow> promise lru \<Rightarrow> promise \<times> promise lru" where
  "scanDataKeys pb now r contractId blockHeight keyPattern iterator limit c =
     (case redis_scan r iterator
             (utf8 (str ''data:'' @ contractId @ str '':'' @ keyPattern)) limit of
        Inl e \<Rightarrow> (Inl e, c)
      | Inr (newIterator, keys) \<Rightarrow>
          (let compKeys = map (drop (length (str ''data:''))) keys;
               storageKeys = map (drop (length contractId + 1)) compKeys in
           case lookup_revisions pb now r blockHeight compKeys c of
             (revs, c1) \<Rightarrow>
               (case lookup_values pb now r (zip compKeys revs) c1 of
                  (vals, c2) \<Rightarrow>
                    (case promise_all vals of
                       Inl e \<Rightarrow> (Inl e, c2)
                     | Inr data \<Rightarrow> (Inr (Scan newIterator (zip storageKeys data)), c2)))))"




text \<open>
  The lookups a scan makes when the store decides every one of them, each with its cache key
  and the promise the store gives; and the condition that the cache cannot change any of
  them: lookups that share a cache key have the same promise, and an entry of the cache
  under the key of a lookup holds that lookup's promise.
\<close>

definition expected_lookups ::
  "(bytes \<Rightarrow> jsstring) \<Rightarrow> redis \<Rightarrow> nat \<Rightarrow> bytes list \<Rightarrow> (jsstring \<times> promise) list" where
  "expected_lookups pb r blockHeight compKeys =
     map (\<lambda>k. (cacheKey_of pb (str ''getLatestDataBlockHash'') [Buffer k, Decimal blockHeight],
                getLatestDataBlockHash r k blockHeight)) compKeys
     @ concat (map (\<lambda>k.
         case getLatestDataBlockHash r k blockHeight of
           Inl e \<Rightarrow> []
         | Inr b \<Rightarrow>
             if truthy b
             then [(cacheKey_of pb (str ''getData'') [Buffer k, b], getData_js r k b)]
             else []) compKeys)"

definition single_valued_list :: "(jsstring \<times> promise) list \<Rightarrow> bool" where
  "single_valued_list ex = (\<forall>p \<in> set ex. \<forall>q \<in> set ex. fst q = fst p \<longrightarrow> snd q = snd p)"

definition holds_expected :: "(jsstring \<times> promise) list \<Rightarrow> promise lru \<Rightarrow> bool" where
  "holds_expected ex c = (\<forall>p \<in> set ex. \<forall>e \<in> set c. ekey e = fst p \<longrightarrow> evalue e = snd p)"

definition cache_agrees ::
  "(bytes \<Rightarrow> jsstring) \<Rightarrow> redis \<Rightarrow> nat \<Rightarrow> bytes list \<Rightarrow> promise lru \<Rightarrow> bool" where
  "cache_agrees pb r blockHeight compKeys c =
     (single_valued_list (expected_lookups pb r blockHeight compKeys)
      \<and> holds_expected (expected_lookups pb r blockHeight compKeys) c)"

text \<open>
  What the store holds for a composite key: the payload stored under a revision hash, and
  the payload of the first member of the reverse range query at a height, \<^verbatim>\<open>null\<close> when
  there is none.
\<close>

definition payload_at :: "redis \<Rightarrow> bytes \<Rightarrow> bytes \<Rightarrow> jsval" where
  "payload_at r compKey blockHash =
     (case strings r (''data-value:'' @ compKey @ '':'' @ blockHash) of
        None \<Rightarrow> Null
      | Some v \<Rightarrow> Buffer v)"

definition stored_value :: "redis \<Rightarrow> bytes \<Rightarrow> nat \<Rightarrow> jsval" where
  "stored_value r compKey blockHeight =
     (case zrevrangebyscore (zsets r (''data:'' @ compKey)) blockHeight 0 1 of
        [] \<Rightarrow> Null
      | blockHash # rest \<Rightarrow> payload_at r compKey blockHash)"

text \<open>What one key's value lookup settles to when the store decides it.\<close>

definition value_promise :: "redis \<Rightarrow> bytes \<Rightarrow> nat \<Rightarrow> promise" where
  "value_promise r k H =
     (case getLatestDataBlockHash r k H of
        Inl e \<Rightarrow> Inl e
      | Inr b \<Rightarrow> if truthy b then getData_js r k b else Inr Null)"

section \<open>Example data\<close>

text \<open>
  A store at height 100 with three code revisions of \<^verbatim>\<open>app.near\<close> (heights 10, 50 and
  120) and one storage entry, and the same store after the indexer has added a revision at
  height 90.
\<close>

definition demo_store :: redis where
  "demo_store =
     \<lparr> fault = None,
       latest_block_height = Some 100,
       strings = [''code:app.near:r2'' \<mapsto> ''wasm'', ''data-value:app.near:k:h1'' \<mapsto> ''v''],
       zsets = (\<lambda>key.
         if key = ''code:app.near'' then [(''r1'', 10), (''r2'', 50), (''r3'', 120)]
         else if key = ''data:app.near:k'' then [(''h1'', 40)]
         else []),
       scan_reply = (\<lambda>cursor pattern cnt. (0, [''data:app.near:k''])) \<rparr>"

definition demo_store_later :: redis where
  "demo_store_later =
     demo_store \<lparr> zsets := (\<lambda>key.
         if key = ''code:app.near'' then [(''r1'', 10), (''r2'', 50), (''r4'', 90), (''r3'', 120)]
         else zsets demo_store key) \<rparr>"




text \<open>
  A store with one storage entry of a contract whose identifier is the single letter
  U+00E9, two bytes in UTF-8.
\<close>

definition accent_store :: redis where
  "accent_store =
     \<lparr> fault = None,
       latest_block_height = Some 100,
       strings = [''data-value:'' @ utf8 [0xE9] @ '':k:h1'' \<mapsto> ''v''],
       zsets = (\<lambda>key. if key = ''data:'' @ utf8 [0xE9] @ '':k'' then [(''h1'', 40)] else []),
       scan_reply = (\<lambda>cursor pattern cnt. (0, [''data:'' @ utf8 [0xE9] @ '':k''])) \<rparr>"

text \<open>A printer for buffers that hold ASCII text.\<close>

definition ascii_pretty :: "bytes \<Rightarrow> jsstring" where
  "ascii_pretty b = str b"

section \<open>The HTTP view handler: \<^verbatim>\<open>isJSON\<close>\<close>

definition MAX_WHITESPACE :: nat where
  "MAX_WHITESPACE = 1000"

text \<open>
  \<^verbatim>\<open>isJSON(buffer)\<close>. The UTF-8 decoder \<^verbatim>\<open>Buffer.prototype.toString\<close> and
  \<^verbatim>\<open>JSON.parse\<close> are built-ins of the language and are parameters here; a parse that
  throws is \<open>Inl\<close>. The source tests the same \<^verbatim>\<open>startsWith('[')\<close> twice.
\<close>

definition isJSON ::
  "(bytes \<Rightarrow> jsstring) \<Rightarrow> (jsstring \<Rightarrow> js_error + 'j) \<Rightarrow> bytes \<Rightarrow> bool" where
  "isJSON toString JSON_parse buffer =
     (let startSlice = trim (toString (take (MAX_WHITESPACE + 1) buffer)) in
      if startsWith startSlice (str ''['') \<or> startsWith startSlice (str ''['') then
        (case JSON_parse (toString buffer) of
           Inl e \<Rightarrow> False
         | Inr v \<Rightarrow> True)
      else True)"

text \<open>A decoder for buffers that hold ASCII text only, and a parser that rejects every text.\<close>

definition ascii_toString :: "bytes \<Rightarrow> jsstring" where
  "ascii_toString b = str b"

definition SyntaxError :: js_error where
  "SyntaxError = JsError (str ''SyntaxError'') (str ''Unexpected token'') None"

definition reject_parse :: "jsstring \<Rightarrow> js_error + unit" where
  "reject_parse s = Inl SyntaxError"

section \<open>The JSON-RPC layer: account records\<close>

text \<open>
  \<^verbatim>\<open>class Account\<close> with the fields that \<^verbatim>\<open>BORSH_SCHEMA\<close> lists. The numbers are
  arbitrary-precision integers (\<^verbatim>\<open>BN\<close>).
\<close>

record Account =
  amount :: nat
  locked :: nat
  code_hash :: bytes
  storage_usage :: nat

text \<open>
  The reader of the \<^verbatim>\<open>borsh\<close> library: a buffer and an offset. Reading past the end of
  the buffer throws, which is \<open>None\<close>. \<^verbatim>\<open>u64\<close> and \<^verbatim>\<open>u128\<close> read 8 and 16 bytes as a
  little-endian number; \<^verbatim>\<open>['u8', 32]\<close> reads 32 single bytes.
\<close>

definition le_nat :: "bytes \<Rightarrow> nat" where
  "le_nat b = foldr (\<lambda>c acc. of_char c + 256 * acc) b 0"

type_synonym reader = "bytes \<times> nat"

definition readBuffer :: "nat \<Rightarrow> reader \<Rightarrow> (bytes \<times> reader) option" where
  "readBuffer len rd =
     (case rd of (buf, offset) \<Rightarrow>
        if offset + len > length buf then None
        else Some (take len (drop offset buf), (buf, offset + len)))"

definition readU8 :: "reader \<Rightarrow> (char \<times> reader) option" where
  "readU8 rd =
     (case rd of (buf, offset) \<Rightarrow>
        if offset < length buf then Some (buf ! offset, (buf, offset + 1)) else None)"

definition readU64 :: "reader \<Rightarrow> (nat \<times> reader) option" where
  "readU64 rd = map_option (\<lambda>(b, rd'). (le_nat b, rd')) (readBuffer 8 rd)"

definition readU128 :: "reader \<Rightarrow> (nat \<times> reader) option" where
  "readU128 rd = map_option (\<lambda>(b, rd'). (le_nat b, rd')) (readBuffer 16 rd)"

fun readFixed :: "nat \<Rightarrow> reader \<Rightarrow> (bytes \<times> reader) option" where
  "readFixed 0 rd = Some ([], rd)"
| "readFixed (Suc n) rd =
     (case readU8 rd of
        None \<Rightarrow> None
      | Some (x, rd') \<Rightarrow>
          (case readFixed n rd' of
             None \<Rightarrow> None
           | Some (xs, rd'') \<Rightarrow> Some (x # xs, rd'')))"

text \<open>
  \<^verbatim>\<open>deserialize(BORSH_SCHEMA, Account, accountData)\<close>: the fields in the order of the
  schema (\<^verbatim>\<open>amount: u128\<close>, \<^verbatim>\<open>locked: u128\<close>, \<^verbatim>\<open>code_hash: ['u8', 32]\<close>,
  \<^verbatim>\<open>storage_usage: u64\<close>); bytes left over after the last field are an error.
\<close>

definition deserialize_Account :: "bytes \<Rightarrow> Account option" where
  "deserialize_Account buffer =
     Option.bind (readU128 (buffer, 0)) (\<lambda>(a, rd1).
     Option.bind (readU128 rd1) (\<lambda>(l, rd2).
     Option.bind (readFixed 32 rd2) (\<lambda>(h, rd3).
     Option.bind (readU64 rd3) (\<lambda>(s, rd4).
       if snd rd4 < length buffer then None
       else Some \<lparr> amount = a, locked = l, code_hash = h, storage_usage = s \<rparr>))))"

text \<open>
  Modelled from the spec: the repository only decodes account records, it has no encoder.
  The encoder writes the layout of the spec's section 6:
  amount (16 bytes, u128 LE), locked (16 bytes, u128 LE), code_hash (32 bytes),
  storage_usage (8 bytes, u64 LE), concatenated without padding.
\<close>

fun le_bytes :: "nat \<Rightarrow> nat \<Rightarrow> bytes" where
  "le_bytes 0 x = []"
| "le_bytes (Suc n) x = char_of (x mod 256) # le_bytes n (x div 256)"

definition encode_Account :: "Account \<Rightarrow> bytes" where
  "encode_Account a =
     le_bytes 16 (amount a) @ le_bytes 16 (locked a) @ code_hash a @ le_bytes 8 (storage_usage a)"

text \<open>Two account records whose numeric fields are boundary values.\<close>

definition boundary_account_hi :: Account where
  "boundary_account_hi =
     \<lparr> amount = 2 ^ 128 - 1, locked = 2 ^ 127,
       code_hash = replicate 32 (CHR 0xAB), storage_usage = 2 ^ 64 - 1 \<rparr>"

definition boundary_account_lo :: Account where
  "boundary_account_lo =
     \<lparr> amount = 0, locked = 2 ^ 128 - 1,
       code_hash = replicate 32 (CHR 0x00), storage_usage = 2 ^ 63 - 1 \<rparr>"

section \<open>The HTTP view service: \<^verbatim>\<open>runContract\<close>\<close>

text \<open>\<^verbatim>\<open>buffer.toString('hex')\<close>: two lower-case hexadecimal digits for each byte.\<close>

definition hex_digit :: "nat \<Rightarrow> 16 word" where
  "hex_digit d = (if d < 10 then of_nat (48 + d) else of_nat (87 + d))"

definition hex :: "bytes \<Rightarrow> jsstring" where
  "hex b = concat (map (\<lambda>c. [hex_digit (of_char c div 16), hex_digit (of_char c mod 16)]) b)"

text \<open>
  What the function uses and the repository does not define: \<^verbatim>\<open>JSON.stringify\<close>,
  \<^verbatim>\<open>WebAssembly.compile\<close> and the worker pool's \<^verbatim>\<open>runContract\<close> (module
  \<^verbatim>\<open>./worker-pool\<close>).
\<close>

record ('j, 'm, 'res) host =
  JSON_stringify :: "'j \<Rightarrow> jsstring"
  WebAssembly_compile :: "bytes \<Rightarrow> js_error + 'm"
  workerPool_runContract :: "jsval \<Rightarrow> 'm \<Rightarrow> jsstring \<Rightarrow> jsstring \<Rightarrow> bytes \<Rightarrow> js_error + 'res"

datatype 'j method_args = ArgsBuffer bytes | ArgsValue 'j

text \<open>The errors the language and the client library raise along the way.\<close>

definition TypeError :: "string \<Rightarrow> js_error" where
  "TypeError msg = JsError (str ''TypeError'') (str msg) None"

definition undefined_toString :: js_error where
  "undefined_toString = TypeError ''Cannot read properties of undefined (reading 'toString')''"

definition null_length :: js_error where
  "null_length = TypeError ''Cannot read properties of null (reading 'length')''"

text \<open>
  \<^verbatim>\<open>runContract(contractId, methodName, methodArgs)\<close> with the module-level
  \<^verbatim>\<open>contractCache\<close> passed in and returned. The height read from the store goes into the
  range query as it is; a missing height is \<^verbatim>\<open>null\<close>, and the client, encoding the
  command, throws on reading its \<^verbatim>\<open>length\<close>. The first element of the reply is used
  without a check: \<^verbatim>\<open>toString\<close> of \<^verbatim>\<open>undefined\<close> and \<^verbatim>\<open>length\<close> of \<^verbatim>\<open>null\<close> throw.
\<close>

definition runContract ::
  "('j, 'm, 'res) host \<Rightarrow> redis \<Rightarrow> jsstring \<Rightarrow> jsstring \<Rightarrow> 'j method_args
     \<Rightarrow> (jsstring \<rightharpoonup> 'm) \<Rightarrow> (js_error + 'res) \<times> (jsstring \<rightharpoonup> 'm)" where
  "runContract h r contractId methodName methodArgs contractCache =
     (let methodArgs =
            (case methodArgs of
               ArgsBuffer b \<Rightarrow> b
             | ArgsValue v \<Rightarrow> utf8 (JSON_stringify h v)) in
      case redis_get_latest_block_height r of
        Inl e \<Rightarrow> (Inl e, contractCache)
      | Inr latestBlockHeight \<Rightarrow>
      (case (case latestBlockHeight of
               Decimal n \<Rightarrow> redis_zrevrangebyscore r (utf8 (str ''code:'' @ contractId)) n 0 1
             | _ \<Rightarrow> Inl null_length) of
        Inl e \<Rightarrow> (Inl e, contractCache)
      | Inr reply \<Rightarrow>
      (case first_of reply of
        Buffer contractBlockHash \<Rightarrow>
          (let cacheKey = contractId @ str '':'' @ hex contractBlockHash @ str ''}'' in
           case contractCache cacheKey of
             Some wasmModule \<Rightarrow>
               (workerPool_runContract h latestBlockHeight wasmModule contractId methodName
                  methodArgs,
                contractCache)
           | None \<Rightarrow>
               (case redis_get r (utf8 (str ''code:'' @ contractId @ str '':'') @ contractBlockHash) of
                  Inl e \<Rightarrow> (Inl e, contractCache)
                | Inr (Buffer wasmData) \<Rightarrow>
                    (case WebAssembly_compile h wasmData of
                       Inl e \<Rightarrow> (Inl e, contractCache)
                     | Inr wasmModule \<Rightarrow>
                         (workerPool_runContract h latestBlockHeight wasmModule contractId
                            methodName methodArgs,
                          contractCache(cacheKey \<mapsto> wasmModule)))
                | Inr _ \<Rightarrow> (Inl null_length, contractCache)))
      | _ \<Rightarrow> (Inl undefined_toString, contractCache))))"

text \<open>
  The two tests on an error's text: \<^verbatim>\<open>/TypeError.* is not a function/\<close> anywhere in the
  text (the dot matches anything but a line terminator) and \<^verbatim>\<open>/^abort:/\<close>.
\<close>

definition is_line_terminator :: "16 word \<Rightarrow> bool" where
  "is_line_terminator u = (u = 0x0A \<or> u = 0x0D \<or> u = 0x2028 \<or> u = 0x2029)"

fun dot_star_then :: "jsstring \<Rightarrow> jsstring \<Rightarrow> bool" where
  "dot_star_then p [] = (p = [])"
| "dot_star_then p (c # cs) =
     (startsWith (c # cs) p \<or> (\<not> is_line_terminator c \<and> dot_star_then p cs))"

fun is_not_a_function :: "jsstring \<Rightarrow> bool" where
  "is_not_a_function [] = False"
| "is_not_a_function (c # cs) =
     ((startsWith (c # cs) (str ''TypeError'')
         \<and> dot_star_then (str '' is not a function'') (drop 9 (c # cs)))
      \<or> is_not_a_function cs)"

definition is_abort :: "jsstring \<Rightarrow> bool" where
  "is_abort message = startsWith message (str ''abort:'')"

text \<open>
  What a handler leaves to the HTTP framework: a response body, a call of
  \<^verbatim>\<open>ctx.throw(status, message)\<close>, the exception thrown on, or the request proxied to the
  upstream node.
\<close>

datatype ('id, 'b) response =
  Body 'b
| ViewCallError 'id jsstring
| LegacyError 'id jsstring
| Proxied
| HttpThrow nat jsstring
| Rethrown js_error
| NoBody

text \<open>
  \<^verbatim>\<open>runViewMethod\<close>, given the settled promise of \<^verbatim>\<open>runContract\<close>. A result that does not
  pass \<^verbatim>\<open>isJSON\<close> sets no body.
\<close>

definition runViewMethod ::
  "(bytes \<Rightarrow> bool) \<Rightarrow> jsstring \<Rightarrow> js_error + bytes \<Rightarrow> ('id, bytes) response" where
  "runViewMethod is_json methodName outcome =
     (case outcome of
        Inr result \<Rightarrow> if is_json result then Body result else NoBody
      | Inl e \<Rightarrow>
          (let message = err_message e in
           if is_not_a_function message
           then HttpThrow 404 (str ''method '' @ methodName @ str '' not found'')
           else if is_abort message then HttpThrow 400 message
           else Rethrown e))"

section \<open>The JSON-RPC layer: \<^verbatim>\<open>handleError\<close>\<close>

text \<open>\<^verbatim>\<open>Error.prototype.toString\<close>.\<close>

definition error_toString :: "js_error \<Rightarrow> jsstring" where
  "error_toString e =
     (if err_name e = [] then err_message e
      else if err_message e = [] then err_name e
      else err_name e @ str '': '' @ err_message e)"

text \<open>
  \<^verbatim>\<open>handleError({ ctx, accountId, error })\<close> with \<open>rid\<close> the \<^verbatim>\<open>id\<close> of the request body.
  \<^verbatim>\<open>JSON.stringify\<close> of a string is a parameter.
\<close>

definition handleError ::
  "(jsstring \<Rightarrow> jsstring) \<Rightarrow> 'id \<Rightarrow> jsstring \<Rightarrow> js_error \<Rightarrow> ('id, 'b) response" where
  "handleError stringify rid accountId error =
     (let message = error_toString error in
      if is_not_a_function message then
        ViewCallError rid
          (str ''wasm execution failed with error: FunctionCallError(MethodResolveError(MethodNotFound))'')
      else if err_code error = Some (str ''notImplemented'') then Proxied
      else if err_code error = Some (str ''panic'') \<or> err_code error = Some (str ''abort'') then
        ViewCallError rid
          (str ''wasm execution failed with error: FunctionCallError(HostError(GuestPanic { panic_msg: ''
           @ stringify (err_message error) @ str ''}))'')
      else if err_code error = Some (str ''codeNotFound'') then
        ViewCallError rid
          (str ''wasm execution failed with error: FunctionCallError(CompilationError(CodeDoesNotExist { account_id: AccountId(''
           @ str [CHR 0x22] @ accountId @ str [CHR 0x22] @ str '') }))'')
      else if err_code error = Some (str ''accountNotFound'') then
        LegacyError rid (str ''account '' @ accountId @ str '' does not exist while viewing'')
      else HttpThrow 400 message)"

text \<open>
  The error tags of the specification, and what it would mean for a response to be a
  structured error that does not expose the exception: it is one of the two JSON error
  bodies or the proxied request, not an HTTP error carrying the exception's text and not
  the exception itself.
\<close>

definition stable_tags :: "jsstring list" where
  "stable_tags =
     [str ''accountNotFound'', str ''codeNotFound'', str ''codeCompilation'',
      str ''methodNotFound'', str ''panic'', str ''abort'', str ''notImplemented'',
      str ''timeout'', str ''transient'']"

definition exposes_exception :: "('id, 'b) response \<Rightarrow> js_error \<Rightarrow> bool" where
  "exposes_exception resp e =
     (case resp of
        HttpThrow status message \<Rightarrow> message = error_toString e \<or> message = err_message e
      | Rethrown e' \<Rightarrow> e' = e
      | _ \<Rightarrow> False)"

text \<open>A host whose compiler and worker pool accept everything, and a store without code.\<close>

definition demo_host :: "(unit, bytes, bytes) host" where
  "demo_host =
     \<lparr> JSON_stringify = (\<lambda>v. str ''{}''),
       WebAssembly_compile = (\<lambda>wasmData. Inr wasmData),
       workerPool_runContract = (\<lambda>blockHeight wasmModule contractId methodName methodArgs.
         Inr ''ok'') \<rparr>"

definition quoted :: "jsstring \<Rightarrow> jsstring" where
  "quoted s = str [CHR 0x22] @ s @ str [CHR 0x22]"

text \<open>An error tagged \<^verbatim>\<open>codeNotFound\<close> and the error of calling a missing export.\<close>

definition demo_error_tagged :: js_error where
  "demo_error_tagged = JsError (str ''Error'') (str ''no code'') (Some (str ''codeNotFound''))"

definition demo_error_method :: js_error where
  "demo_error_method = TypeError ''x.hello is not a function''"

section \<open>The HTTP view service: concurrent calls and the module cache\<close>

text \<open>
  Several calls of \<^verbatim>\<open>runContract\<close> are in flight at once; each runs without interruption
  from one \<^verbatim>\<open>await\<close> to the next, and which call continues next is not determined. The
  part of a call between the computation of the cache key and the worker (the lookup in
  \<^verbatim>\<open>contractCache\<close>, the fetch of the blob, the compilation, the store into the cache) is
  followed here: a call is in one of these states, each naming its cache key.
\<close>

datatype 'm call =
  AtLookup jsstring bytes
| AwaitCode jsstring bytes
| AwaitCompile jsstring bytes
| CacheHit jsstring 'm
| Compiled jsstring 'm
| FetchFailed jsstring js_error
| CompileFailed jsstring js_error




text \<open>
  The shared state: the module cache, the cache keys for which \<^verbatim>\<open>WebAssembly.compile\<close> has
  been called (in order), and the calls in flight.
\<close>

record 'm engine =
  module_cache :: "jsstring \<rightharpoonup> 'm"
  compile_log :: "jsstring list"
  calls :: "'m call list"

text \<open>
  One call continues to its next \<^verbatim>\<open>await\<close>: the lookup (a hit ends this part, a miss issues
  the fetch); the arrival of the blob, on which the compilation is started; the end of the
  compilation, on which the module is stored under the key.
\<close>

definition continue_call ::
  "('j, 'm, 'res) host \<Rightarrow> redis \<Rightarrow> nat \<Rightarrow> 'm engine \<Rightarrow> 'm engine" where
  "continue_call h r i w =
     (if i < length (calls w) then
        (case calls w ! i of
           AtLookup k codeKey \<Rightarrow>
             (case module_cache w k of
                Some wasmModule \<Rightarrow> w \<lparr> calls := (calls w)[i := CacheHit k wasmModule] \<rparr>
              | None \<Rightarrow> w \<lparr> calls := (calls w)[i := AwaitCode k codeKey] \<rparr>)
         | AwaitCode k codeKey \<Rightarrow>
             (case redis_get r codeKey of
                Inl e \<Rightarrow> w \<lparr> calls := (calls w)[i := FetchFailed k e] \<rparr>
              | Inr (Buffer wasmData) \<Rightarrow>
                  w \<lparr> compile_log := compile_log w @ [k],
                      calls := (calls w)[i := AwaitCompile k wasmData] \<rparr>
              | Inr v \<Rightarrow> w \<lparr> calls := (calls w)[i := FetchFailed k null_length] \<rparr>)
         | AwaitCompile k wasmData \<Rightarrow>
             (case WebAssembly_compile h wasmData of
                Inl e \<Rightarrow> w \<lparr> calls := (calls w)[i := CompileFailed k e] \<rparr>
              | Inr wasmModule \<Rightarrow>
                  w \<lparr> module_cache := (module_cache w)(k \<mapsto> wasmModule),
                      calls := (calls w)[i := Compiled k wasmModule] \<rparr>)
         | c \<Rightarrow> w)
      else w)"

text \<open>An interleaving is the list of the calls that continue, in order.\<close>

fun interleave ::
  "('j, 'm, 'res) host \<Rightarrow> redis \<Rightarrow> nat list \<Rightarrow> 'm engine \<Rightarrow> 'm engine" where
  "interleave h r [] w = w"
| "interleave h r (i # schedule) w = interleave h r schedule (continue_call h r i w)"

text \<open>The call of \<^verbatim>\<open>runContract\<close> for a contract and a revision hash, at its lookup.\<close>

definition call_for :: "jsstring \<Rightarrow> bytes \<Rightarrow> 'm call" where
  "call_for contractId contractBlockHash =
     AtLookup (contractId @ str '':'' @ hex contractBlockHash @ str ''}'')
       (utf8 (str ''code:'' @ contractId @ str '':'') @ contractBlockHash)"


section \<open>Properties\<close>

subsection \<open>UTF-8 encoding of ASCII text\<close>

lemma utf8_ascii_Cons: "unat u < 128 \<Longrightarrow> utf8 (u # us) = char_of (unat u) # utf8 us"
  by (cases us) (auto simp: is_high_surrogate_def is_low_surrogate_def utf8_1_def)

lemma utf8_str_append:
  "\<forall>c \<in> set s. of_char c < (128::nat) \<Longrightarrow> utf8 (str s @ us) = s @ utf8 us"
proof (induction s)
  case Nil
  then show ?case by (simp add: str_def)
next
  case (Cons c s)
  have lt: "(of_char c :: nat) < 128" using Cons.prems by simp
  then have "unat (of_nat (of_char c) :: 16 word) = of_char c"
    by (simp add: unat_of_nat)
  with lt Cons show ?case
    by (simp add: str_def utf8_ascii_Cons)
qed

lemma utf8_append:
  "\<not> is_low_surrogate v \<Longrightarrow> utf8 (us @ v # vs) = utf8 us @ utf8 (v # vs)"
  by (induction us rule: utf8.induct) auto

lemma utf8_append_str:
  assumes "\<forall>c \<in> set s. of_char c < (128::nat)"
  shows "utf8 (us @ str s) = utf8 us @ s"
proof (cases s)
  case Nil
  then show ?thesis by (simp add: str_def)
next
  case (Cons c t)
  have lt: "(of_char c :: nat) < 128" using assms Cons by simp
  then have u: "unat (of_nat (of_char c) :: 16 word) = of_char c"
    by (simp add: unat_of_nat)
  then have nl: "\<not> is_low_surrogate (of_nat (of_char c))"
    using lt by (simp add: is_low_surrogate_def)
  have "utf8 (us @ str s) = utf8 us @ utf8 (str s @ [])"
    using utf8_append [OF nl, of us "str t"] Cons by (simp add: str_def)
  then show ?thesis using utf8_str_append [OF assms, of "[]"] by simp
qed

subsection \<open>The reverse range query\<close>


lemma sort_eq_Nil: "sort xs = [] \<longleftrightarrow> xs = []"
  by (metis set_empty set_sort)

lemma zrev_first_empty:
  "zrevrangebyscore z mx 0 1 = [] \<longleftrightarrow> (\<forall>(m, s) \<in> set z. \<not> s \<le> mx)"
  by (auto simp: zrevrangebyscore_def take_Suc sort_eq_Nil filter_empty_conv split: list.splits)




text \<open>
  Claim C6. The payload fetches read exactly one key, built by concatenating bytes with
  colon bytes (0x3A) between the parts and nothing else: \<^verbatim>\<open>getContractCode\<close> reads
  \<^verbatim>\<open>code:\<close>, the UTF-8 bytes of the contract identifier, a colon and the revision hash;
  \<^verbatim>\<open>getData\<close> reads \<^verbatim>\<open>data-value:\<close>, the composite key bytes as they are, a colon and the
  revision hash. The key bytes are arbitrary.
\<close>

theorem payload_keys_bit_exact:
  "getContractCode r C R = redis_get r (''code:'' @ utf8 C @ '':'' @ R)
   \<and> getData r compKey R = redis_get r (''data-value:'' @ compKey @ '':'' @ R)
   \<and> '':'' = [char_of (0x3A :: nat)]
   \<and> length (''code:'' @ utf8 C @ '':'' @ R) = 5 + length (utf8 C) + 1 + length R
   \<and> length (''data-value:'' @ compKey @ '':'' @ R) = 11 + length compKey + 1 + length R"
proof -
  have "utf8 (str ''code:'' @ C @ str '':'') = ''code:'' @ utf8 (C @ str '':'')"
    by (rule utf8_str_append) simp
  also have "utf8 (C @ str '':'') = utf8 C @ '':''"
    by (rule utf8_append_str) simp
  finally have code: "utf8 (str ''code:'' @ C @ str '':'') = ''code:'' @ utf8 C @ '':''" .
  have dv: "utf8 (str ''data-value:'') = ''data-value:''"
    using utf8_str_append [of "''data-value:''" "[]"] by simp
  have colon: "utf8 (str '':'') = '':''"
    using utf8_str_append [of "'':''" "[]"] by simp
  have byte: "'':'' = [char_of (0x3A :: nat)]"
    by code_simp
  have keys: "getContractCode r C R = redis_get r (''code:'' @ utf8 C @ '':'' @ R)
      \<and> getData r compKey R = redis_get r (''data-value:'' @ compKey @ '':'' @ R)"
    by (simp add: getContractCode_def getData_def code dv colon)
  show ?thesis
    using keys byte by simp
qed

text \<open>
  Claim C9. \<^verbatim>\<open>isJSON\<close> parses only when the trimmed leading slice (the first 1001 bytes,
  decoded and trimmed) starts with an opening square bracket. Whenever that slice does not
  start with the bracket the answer is true, whatever the parser would say about the buffer;
  the answer is false exactly when the slice starts with the bracket and parsing the whole
  buffer throws.
\<close>

theorem isJSON_short_circuit:
  "(\<not> startsWith (trim (toString (take 1001 buffer))) (str ''['')
      \<longrightarrow> isJSON toString JSON_parse buffer)
   \<and> (\<not> isJSON toString JSON_parse buffer
      \<longleftrightarrow> startsWith (trim (toString (take 1001 buffer))) (str ''['')
          \<and> (\<exists>e. JSON_parse (toString buffer) = Inl e))"
  by (auto simp: isJSON_def MAX_WHITESPACE_def Let_def split: sum.splits)

theorem isJSON_short_circuit_witness:
  "\<not> startsWith (trim (ascii_toString (take 1001 ''  {nope''))) (str ''['')
   \<and> isJSON ascii_toString reject_parse ''  {nope''
   \<and> reject_parse (ascii_toString ''  {nope'') = Inl SyntaxError
   \<and> startsWith (trim (ascii_toString (take 1001 '' [nope''))) (str ''['')
   \<and> \<not> isJSON ascii_toString reject_parse '' [nope''"
  using isJSON_short_circuit [of ascii_toString "''  {nope''" reject_parse]
        isJSON_short_circuit [of ascii_toString "'' [nope''" reject_parse]
  by (simp add: startsWith_def trim_def ascii_toString_def str_def is_js_space_def reject_parse_def)

subsection \<open>The local cache\<close>

lemma filter_take_filter: "filter P (take n (filter P xs)) = take n (filter P xs)"
  by (rule filter_True) (auto dest: in_set_takeD)

lemma lru_set_Cons:
  "lru_set now k v maxAge c =
     Entry k v (if maxAge \<noteq> 0 then now else 0) maxAge
       # take 999 (filter (\<lambda>e'. ekey e' \<noteq> k) c)"
  by (simp add: lru_set_def LRU_MAX_def take_Cons')

lemma lru_get_after_set:
  assumes "maxAge \<noteq> 0 \<longrightarrow> now' - now \<le> maxAge"
  shows "lru_get now' k (lru_set now k v maxAge c) = (Some v, lru_set now k v maxAge c)"
  using assms by (auto simp: lru_set_Cons lru_get_def isStale_def filter_take_filter)

lemma lru_get_after_set_stale:
  assumes "maxAge \<noteq> 0" "now' - now > maxAge"
  shows "fst (lru_get now' k (lru_set now k v maxAge c)) = None"
  using assms by (simp add: lru_set_Cons lru_get_def isStale_def)

lemma withRedis_miss:
  assumes "fst (lru_get now (cacheKey_of pb name args) c) = None"
  shows "withRedis name ce fn pb args now r c =
           (fn r args,
            lru_set now (cacheKey_of pb name args) (fn r args)
              (if ce then BLOCK_INDEX_CACHE_TIME else 0)
              (snd (lru_get now (cacheKey_of pb name args) c)))"
proof -
  obtain c' where "lru_get now (cacheKey_of pb name args) c = (None, c')"
    using assms by (cases "lru_get now (cacheKey_of pb name args) c") auto
  then show ?thesis by (simp add: withRedis_def Let_def)
qed

lemma withRedis_hit:
  assumes "lru_get now (cacheKey_of pb name args) c = (Some p, c')"
  shows "withRedis name ce fn pb args now r c = (p, c')"
  using assms by (simp add: withRedis_def)




text \<open>
  Claim C3, amended. The memoization is process-wide: after an exported operation has
  missed and stored its promise, a later invocation with the same name and arguments gets
  that promise back from the cache, whatever the store holds by then and whichever view
  call makes it. For the operations outside \<^verbatim>\<open>cacheExpiresList\<close> this holds at every later
  time; for \<^verbatim>\<open>getLatestBlockHeight\<close>, the only member of the list, it holds up to 500
  milliseconds after the entry was stored, and after that the store is asked again.
\<close>

theorem memo_process_wide:
  assumes miss: "fst (lru_get now (cacheKey_of pb name args) c) = None"
  shows "(name \<notin> set cacheExpiresList \<or> now' - now \<le> 500
            \<longrightarrow> export name fn' pb args now' r' (snd (export name fn pb args now r c))
                = (fn r args, snd (export name fn pb args now r c)))
       \<and> (name \<in> set cacheExpiresList \<and> now' - now > 500
            \<longrightarrow> fst (export name fn' pb args now' r' (snd (export name fn pb args now r c)))
                = fn' r' args)
       \<and> cacheExpiresList = [str ''getLatestBlockHeight'']"
proof -
  let ?k = "cacheKey_of pb name args"
  let ?ce = "name \<in> set cacheExpiresList"
  let ?age = "if ?ce then BLOCK_INDEX_CACHE_TIME else 0"
  let ?c1 = "lru_set now ?k (fn r args) ?age (snd (lru_get now ?k c))"
  have first: "export name fn pb args now r c = (fn r args, ?c1)"
    by (simp add: export_def withRedis_miss [OF miss])
  have hit: "export name fn' pb args now' r' ?c1 = (fn r args, ?c1)"
    if "name \<notin> set cacheExpiresList \<or> now' - now \<le> 500"
  proof -
    have "?age \<noteq> 0 \<longrightarrow> now' - now \<le> ?age"
      using that by (auto simp: BLOCK_INDEX_CACHE_TIME_def)
    then have "lru_get now' ?k ?c1 = (Some (fn r args), ?c1)"
      by (rule lru_get_after_set)
    then show ?thesis
      by (simp add: export_def withRedis_hit)
  qed
  have stale: "fst (export name fn' pb args now' r' ?c1) = fn' r' args"
    if "name \<in> set cacheExpiresList \<and> now' - now > 500"
  proof -
    have "fst (lru_get now' ?k ?c1) = None"
      using that by (simp add: lru_get_after_set_stale BLOCK_INDEX_CACHE_TIME_def)
    then show ?thesis
      by (simp add: export_def withRedis_miss)
  qed
  show ?thesis
    unfolding first using hit stale by (simp add: cacheExpiresList_def)
qed


lemma lru_get_Nil: "lru_get now k [] = (None, [])"
  by (simp add: lru_get_def)

lemma not_expiring: "str ''getLatestContractBlockHash'' \<notin> set cacheExpiresList"
  by (simp add: cacheExpiresList_def str_def)

lemma expiring: "str ''getLatestBlockHeight'' \<in> set cacheExpiresList"
  by (simp add: cacheExpiresList_def)

lemma demo_revision:
  "getLatestContractBlockHash demo_store (str ''app.near'') 100 = Inr (Buffer ''r2'')"
proof -
  have key: "utf8 (str ''code:'' @ str ''app.near'') = ''code:app.near''"
    using utf8_str_append [of "''code:app.near''" "[]"] by (simp add: str_def)
  show ?thesis
    by (simp add: getLatestContractBlockHash_def redis_zrevrangebyscore_def key
        demo_store_def zrevrangebyscore_def first_of_def)
qed

lemma demo_revision_later:
  "getLatestContractBlockHash demo_store_later (str ''app.near'') 100 = Inr (Buffer ''r4'')"
proof -
  have key: "utf8 (str ''code:'' @ str ''app.near'') = ''code:app.near''"
    using utf8_str_append [of "''code:app.near''" "[]"] by (simp add: str_def)
  show ?thesis
    by (simp add: getLatestContractBlockHash_def redis_zrevrangebyscore_def key
        demo_store_later_def demo_store_def zrevrangebyscore_def first_of_def)
qed

theorem memo_process_wide_witness:
  "fst (lru_get 0 (cacheKey_of ascii_pretty (str ''getLatestContractBlockHash'')
          [Str (str ''app.near''), Decimal 100]) []) = None
   \<and> str ''getLatestContractBlockHash'' \<notin> set cacheExpiresList
   \<and> fst (exports_getLatestContractBlockHash ascii_pretty (str ''app.near'') 100 86400000
            demo_store_later
            (snd (exports_getLatestContractBlockHash ascii_pretty (str ''app.near'') 100 0
                    demo_store [])))
       = Inr (Buffer ''r2'')
   \<and> str ''getLatestBlockHeight'' \<in> set cacheExpiresList
   \<and> (400::int) - 0 \<le> 500
   \<and> fst (exports_getLatestBlockHeight ascii_pretty 400
            (demo_store \<lparr> latest_block_height := Some 101 \<rparr>)
            (snd (exports_getLatestBlockHeight ascii_pretty 0 demo_store [])))
       = Inr (Decimal 100)
   \<and> (600::int) - 0 > 500
   \<and> fst (exports_getLatestBlockHeight ascii_pretty 600
            (demo_store \<lparr> latest_block_height := Some 101 \<rparr>)
            (snd (exports_getLatestBlockHeight ascii_pretty 0 demo_store [])))
       = Inr (Decimal 101)"
proof -
  let ?fn = "\<lambda>r args. getLatestContractBlockHash r (str ''app.near'') 100"
  let ?gh = "\<lambda>r (args :: jsval list). getLatestBlockHeight r"
  let ?r' = "demo_store \<lparr> latest_block_height := Some 101 \<rparr>"
  have miss: "fst (lru_get 0 k []) = None" for k :: jsstring
    by (simp add: lru_get_Nil)
  note a = memo_process_wide
      [where name = "str ''getLatestContractBlockHash''" and fn = ?fn and fn' = ?fn
         and pb = ascii_pretty and args = "[Str (str ''app.near''), Decimal 100]"
         and now = 0 and now' = 86400000 and r = demo_store and r' = demo_store_later
         and c = "[]", OF miss]
  note b = memo_process_wide
      [where name = "str ''getLatestBlockHeight''" and fn = ?gh and fn' = ?gh
         and pb = ascii_pretty and args = "[]"
         and now = 0 and now' = 400 and r = demo_store and r' = ?r'
         and c = "[]", OF miss]
  note c = memo_process_wide
      [where name = "str ''getLatestBlockHeight''" and fn = ?gh and fn' = ?gh
         and pb = ascii_pretty and args = "[]"
         and now = 0 and now' = 600 and r = demo_store and r' = ?r'
         and c = "[]", OF miss]
  have h0: "getLatestBlockHeight demo_store = Inr (Decimal 100)"
    by (simp add: getLatestBlockHeight_def redis_get_latest_block_height_def demo_store_def)
  have h1: "getLatestBlockHeight ?r' = Inr (Decimal 101)"
    by (simp add: getLatestBlockHeight_def redis_get_latest_block_height_def demo_store_def)
  from a have a': "fst (export (str ''getLatestContractBlockHash'') ?fn ascii_pretty
        [Str (str ''app.near''), Decimal 100] 86400000 demo_store_later
        (snd (export (str ''getLatestContractBlockHash'') ?fn ascii_pretty
          [Str (str ''app.near''), Decimal 100] 0 demo_store []))) = Inr (Buffer ''r2'')"
    using not_expiring demo_revision by simp
  from b have b': "fst (export (str ''getLatestBlockHeight'') ?gh ascii_pretty [] 400 ?r'
        (snd (export (str ''getLatestBlockHeight'') ?gh ascii_pretty [] 0 demo_store [])))
        = Inr (Decimal 100)"
    using h0 by simp
  from c have c': "fst (export (str ''getLatestBlockHeight'') ?gh ascii_pretty [] 600 ?r'
        (snd (export (str ''getLatestBlockHeight'') ?gh ascii_pretty [] 0 demo_store [])))
        = Inr (Decimal 101)"
    using expiring h1 by simp
  show ?thesis
    using a' b' c' not_expiring expiring
    by (simp add: lru_get_Nil exports_getLatestContractBlockHash_def
        exports_getLatestBlockHeight_def)
qed

text \<open>
  Claim C3 as stated fails. A first view call resolves the code revision of \<^verbatim>\<open>app.near\<close>
  at height 100 and gets \<^verbatim>\<open>r2\<close>. A day later the store holds a revision \<^verbatim>\<open>r4\<close> at height
  90, and a lookup of another view call with the same arguments still gets \<^verbatim>\<open>r2\<close>, the
  result cached by the first call, where the store would answer \<^verbatim>\<open>r4\<close>.
\<close>

theorem memo_request_scoped_counterexample:
  "fst (exports_getLatestContractBlockHash ascii_pretty (str ''app.near'') 100 0
          demo_store []) = Inr (Buffer ''r2'')
   \<and> fst (exports_getLatestContractBlockHash ascii_pretty (str ''app.near'') 100 86400000
            demo_store_later
            (snd (exports_getLatestContractBlockHash ascii_pretty (str ''app.near'') 100 0
                    demo_store [])))
       = Inr (Buffer ''r2'')
   \<and> getLatestContractBlockHash demo_store_later (str ''app.near'') 100 = Inr (Buffer ''r4'')"
proof -
  let ?fn = "\<lambda>r args. getLatestContractBlockHash r (str ''app.near'') 100"
  let ?k = "cacheKey_of ascii_pretty (str ''getLatestContractBlockHash'')
          [Str (str ''app.near''), Decimal 100]"
  let ?c1 = "lru_set 0 ?k (Inr (Buffer ''r2'')) 0 []"
  have first: "exports_getLatestContractBlockHash ascii_pretty (str ''app.near'') 100 0
          demo_store [] = (Inr (Buffer ''r2''), ?c1)"
    using not_expiring
    by (simp add: exports_getLatestContractBlockHash_def export_def withRedis_miss
        lru_get_Nil demo_revision)
  have hit: "lru_get 86400000 ?k ?c1 = (Some (Inr (Buffer ''r2'')), ?c1)"
    by (rule lru_get_after_set) simp
  have second: "exports_getLatestContractBlockHash ascii_pretty (str ''app.near'') 100
      86400000 demo_store_later ?c1 = (Inr (Buffer ''r2''), ?c1)"
    unfolding exports_getLatestContractBlockHash_def export_def
    by (rule withRedis_hit [OF hit])
  show ?thesis
    using demo_revision_later by (simp add: first second)
qed

subsection \<open>The account record\<close>

lemma length_le_bytes: "length (le_bytes n x) = n"
  by (induction n arbitrary: x) auto

lemma le_nat_le_bytes: "le_nat (le_bytes n x) = x mod 256 ^ n"
proof (induction n arbitrary: x)
  case 0
  then show ?case by (simp add: le_nat_def)
next
  case (Suc n)
  have "le_nat (le_bytes (Suc n) x) = x mod 256 + 256 * le_nat (le_bytes n (x div 256))"
    by (simp add: le_nat_def)
  also have "\<dots> = x mod 256 + 256 * ((x div 256) mod 256 ^ n)"
    by (simp add: Suc.IH)
  also have "\<dots> = x mod (256 * 256 ^ n)"
    by (simp add: mod_mult2_eq)
  finally show ?case by simp
qed

lemma readFixed_slice:
  "offset + n \<le> length buf \<Longrightarrow>
     readFixed n (buf, offset) = Some (take n (drop offset buf), (buf, offset + n))"
proof (induction n arbitrary: offset)
  case 0
  then show ?case by simp
next
  case (Suc n)
  then have lt: "offset < length buf" and rest: "Suc offset + n \<le> length buf" by simp_all
  have "drop offset buf = buf ! offset # drop (Suc offset) buf"
    using lt by (rule Cons_nth_drop_Suc [symmetric])
  then have "take (Suc n) (drop offset buf) = buf ! offset # take n (drop (Suc offset) buf)"
    by simp
  then show ?case
    using lt Suc.IH [OF rest] by (simp add: readU8_def)
qed

lemma deserialize_72:
  assumes "length buffer = 72"
  shows "deserialize_Account buffer =
           Some \<lparr> amount = le_nat (take 16 buffer),
                  locked = le_nat (take 16 (drop 16 buffer)),
                  code_hash = take 32 (drop 32 buffer),
                  storage_usage = le_nat (take 8 (drop 64 buffer)) \<rparr>"
proof -
  have fx: "readFixed 32 (buffer, 32) = Some (take 32 (drop 32 buffer), (buffer, 32 + 32))"
    by (rule readFixed_slice) (simp add: assms)
  show ?thesis
    using assms fx by (simp add: deserialize_Account_def readU128_def readU64_def readBuffer_def)
qed

lemma deserialize_encode:
  assumes "amount a < 2 ^ 128" "locked a < 2 ^ 128" "length (code_hash a) = 32"
    "storage_usage a < 2 ^ 64"
  shows "length (encode_Account a) = 72 \<and> deserialize_Account (encode_Account a) = Some a"
proof -
  have len: "length (encode_Account a) = 72"
    using assms by (simp add: encode_Account_def length_le_bytes)
  have p16: "(256::nat) ^ 16 = 2 ^ 128" and p8: "(256::nat) ^ 8 = 2 ^ 64" by simp_all
  have a: "le_nat (take 16 (encode_Account a)) = amount a"
    using assms by (simp add: encode_Account_def length_le_bytes le_nat_le_bytes p16)
  have l: "le_nat (take 16 (drop 16 (encode_Account a))) = locked a"
    using assms by (simp add: encode_Account_def length_le_bytes le_nat_le_bytes p16)
  have h: "take 32 (drop 32 (encode_Account a)) = code_hash a"
    using assms by (simp add: encode_Account_def length_le_bytes)
  have s: "le_nat (take 8 (drop 64 (encode_Account a))) = storage_usage a"
    using assms by (simp add: encode_Account_def length_le_bytes le_nat_le_bytes p8)
  show ?thesis
    using len deserialize_72 [OF len] unfolding a l h s by simp
qed

text \<open>
  Claim C7. A 72-byte buffer decodes to the account record whose amount is the
  little-endian number in bytes 0 to 15, whose locked balance is the little-endian number
  in bytes 16 to 31, whose code hash is bytes 32 to 63 and whose storage usage is the
  little-endian number in bytes 64 to 71. Encoding a record whose numbers fit their widths
  (128, 128 and 64 bits) and whose code hash has 32 bytes gives 72 bytes, and decoding them
  gives the record back; this covers every combination of the boundary values.
\<close>

theorem account_record_codec:
  "(length buffer = 72 \<longrightarrow>
      deserialize_Account buffer =
        Some \<lparr> amount = le_nat (take 16 buffer),
               locked = le_nat (take 16 (drop 16 buffer)),
               code_hash = take 32 (drop 32 buffer),
               storage_usage = le_nat (take 8 (drop 64 buffer)) \<rparr>)
   \<and> (amount a < 2 ^ 128 \<and> locked a < 2 ^ 128 \<and> length (code_hash a) = 32
        \<and> storage_usage a < 2 ^ 64 \<longrightarrow>
      length (encode_Account a) = 72 \<and> deserialize_Account (encode_Account a) = Some a)"
  using deserialize_72 [of buffer] deserialize_encode [of a] by blast

theorem account_record_codec_witness:
  "amount boundary_account_hi < 2 ^ 128 \<and> locked boundary_account_hi < 2 ^ 128
   \<and> length (code_hash boundary_account_hi) = 32 \<and> storage_usage boundary_account_hi < 2 ^ 64
   \<and> length (encode_Account boundary_account_hi) = 72
   \<and> deserialize_Account (encode_Account boundary_account_hi) = Some boundary_account_hi
   \<and> amount boundary_account_lo < 2 ^ 128 \<and> locked boundary_account_lo < 2 ^ 128
   \<and> length (code_hash boundary_account_lo) = 32 \<and> storage_usage boundary_account_lo < 2 ^ 64
   \<and> length (encode_Account boundary_account_lo) = 72
   \<and> deserialize_Account (encode_Account boundary_account_lo) = Some boundary_account_lo
   \<and> deserialize_Account (encode_Account boundary_account_hi) =
        Some \<lparr> amount = le_nat (take 16 (encode_Account boundary_account_hi)),
               locked = le_nat (take 16 (drop 16 (encode_Account boundary_account_hi))),
               code_hash = take 32 (drop 32 (encode_Account boundary_account_hi)),
               storage_usage = le_nat (take 8 (drop 64 (encode_Account boundary_account_hi))) \<rparr>"
proof -
  have hi: "amount boundary_account_hi < 2 ^ 128 \<and> locked boundary_account_hi < 2 ^ 128
      \<and> length (code_hash boundary_account_hi) = 32 \<and> storage_usage boundary_account_hi < 2 ^ 64"
    by (simp add: boundary_account_hi_def)
  have lo: "amount boundary_account_lo < 2 ^ 128 \<and> locked boundary_account_lo < 2 ^ 128
      \<and> length (code_hash boundary_account_lo) = 32 \<and> storage_usage boundary_account_lo < 2 ^ 64"
    by (simp add: boundary_account_lo_def)
  note h = account_record_codec [of "encode_Account boundary_account_hi" boundary_account_hi]
  note l = account_record_codec [of "encode_Account boundary_account_lo" boundary_account_lo]
  from h hi have h2: "length (encode_Account boundary_account_hi) = 72
      \<and> deserialize_Account (encode_Account boundary_account_hi) = Some boundary_account_hi"
    by blast
  from l lo have l2: "length (encode_Account boundary_account_lo) = 72
      \<and> deserialize_Account (encode_Account boundary_account_lo) = Some boundary_account_lo"
    by blast
  from h h2 have h3: "deserialize_Account (encode_Account boundary_account_hi) =
        Some \<lparr> amount = le_nat (take 16 (encode_Account boundary_account_hi)),
               locked = le_nat (take 16 (drop 16 (encode_Account boundary_account_hi))),
               code_hash = take 32 (drop 32 (encode_Account boundary_account_hi)),
               storage_usage = le_nat (take 8 (drop 64 (encode_Account boundary_account_hi))) \<rparr>"
    by blast
  show ?thesis
    using hi lo h2 l2 h3 by blast
qed

subsection \<open>The view call without code\<close>

lemma code_key: "utf8 (str ''code:'' @ C) = ''code:'' @ utf8 C"
  by (rule utf8_str_append) simp

text \<open>
  Claim C1, on the code. When the store answers, holds a latest height and has no code
  revision of the contract at or below that height, \<^verbatim>\<open>runContract\<close> does not fail with an
  error tagged \<^verbatim>\<open>codeNotFound\<close>: the reply of the range query is empty, the first element
  is \<^verbatim>\<open>undefined\<close>, and building the cache key throws a \<^verbatim>\<open>TypeError\<close> without a code. The
  contract cache is left as it was.
\<close>

theorem runContract_no_code_revision:
  assumes "fault r = None"
    and "latest_block_height r = Some H"
    and "\<forall>(m, s) \<in> set (zsets r (''code:'' @ utf8 C)). H < s"
  shows "runContract h r C methodName methodArgs contractCache
           = (Inl undefined_toString, contractCache)
       \<and> err_name undefined_toString = str ''TypeError''
       \<and> err_code undefined_toString \<noteq> Some (str ''codeNotFound'')"
proof -
  have "zrevrangebyscore (zsets r (''code:'' @ utf8 C)) H 0 1 = []"
    using assms(3) zrev_first_empty [of "zsets r (''code:'' @ utf8 C)" H] by (auto simp: not_le)
  then have "runContract h r C methodName methodArgs contractCache
           = (Inl undefined_toString, contractCache)"
    using assms(1,2)
    by (simp add: runContract_def redis_get_latest_block_height_def redis_zrevrangebyscore_def
        code_key first_of_def)
  then show ?thesis
    by (simp add: undefined_toString_def TypeError_def)
qed

theorem runContract_no_code_revision_witness:
  "fault demo_store = None
   \<and> latest_block_height demo_store = Some 100
   \<and> zsets demo_store (''code:'' @ utf8 (str ''nocode.near'')) = []
   \<and> fst (runContract demo_host demo_store (str ''nocode.near'') (str ''hello'')
            (ArgsValue ()) Map.empty) = Inl undefined_toString
   \<and> err_code undefined_toString \<noteq> Some (str ''codeNotFound'')
   \<and> (runViewMethod (\<lambda>b. True) (str ''hello'') (Inl undefined_toString)
         :: (nat, bytes) response) = Rethrown undefined_toString"
proof -
  have key: "''code:'' @ utf8 (str ''nocode.near'') = ''code:nocode.near''"
    using utf8_str_append [of "''nocode.near''" "[]"] by simp
  have f: "fault demo_store = None" and l: "latest_block_height demo_store = Some 100"
    by (simp_all add: demo_store_def)
  have z: "zsets demo_store (''code:'' @ utf8 (str ''nocode.near'')) = []"
    unfolding key by (simp add: demo_store_def)
  then have none: "\<forall>(m, s) \<in> set (zsets demo_store (''code:'' @ utf8 (str ''nocode.near''))). 100 < s"
    by simp
  have rv: "(runViewMethod (\<lambda>b. True) (str ''hello'') (Inl undefined_toString)
         :: (nat, bytes) response) = Rethrown undefined_toString"
    by code_simp
  show ?thesis
    using runContract_no_code_revision [OF f l none, of demo_host "str ''hello''" "ArgsValue ()" Map.empty]
      f l z rv by simp
qed

subsection \<open>The error handlers\<close>

lemma tag_distinct:
  "str ''notImplemented'' \<noteq> str ''panic''" "str ''notImplemented'' \<noteq> str ''abort''"
  "str ''notImplemented'' \<noteq> str ''codeNotFound''" "str ''notImplemented'' \<noteq> str ''accountNotFound''"
  "str ''panic'' \<noteq> str ''abort''" "str ''panic'' \<noteq> str ''codeNotFound''"
  "str ''panic'' \<noteq> str ''accountNotFound''" "str ''abort'' \<noteq> str ''codeNotFound''"
  "str ''abort'' \<noteq> str ''accountNotFound''" "str ''codeNotFound'' \<noteq> str ''accountNotFound''"
  by (simp_all add: str_def)

text \<open>
  Claim C8, amended. The handlers answer by case. \<^verbatim>\<open>handleError\<close>: an error whose text
  matches \<^verbatim>\<open>TypeError.* is not a function\<close> gets the method-not-found body; otherwise
  the code \<^verbatim>\<open>notImplemented\<close> proxies the request upstream, \<^verbatim>\<open>panic\<close> and \<^verbatim>\<open>abort\<close> get the
  guest-panic body carrying the stringified message, \<^verbatim>\<open>codeNotFound\<close> the
  code-does-not-exist body, \<^verbatim>\<open>accountNotFound\<close> the legacy error body, and every other
  error (any other code, or none) is thrown as HTTP 400 with the text of
  \<^verbatim>\<open>error.toString()\<close> as its message. \<^verbatim>\<open>runViewMethod\<close>: a message matching the first
  pattern gives HTTP 404, a message starting with \<^verbatim>\<open>abort:\<close> gives HTTP 400 with that
  message, and every other exception is thrown on unchanged.
\<close>

theorem handlers_by_case:
  "(is_not_a_function (error_toString e) \<longrightarrow>
      handleError stringify rid accountId e =
        ViewCallError rid
          (str ''wasm execution failed with error: FunctionCallError(MethodResolveError(MethodNotFound))''))
   \<and> (\<not> is_not_a_function (error_toString e) \<and> err_code e = Some (str ''notImplemented'') \<longrightarrow>
      handleError stringify rid accountId e = Proxied)
   \<and> (\<not> is_not_a_function (error_toString e)
        \<and> (err_code e = Some (str ''panic'') \<or> err_code e = Some (str ''abort'')) \<longrightarrow>
      handleError stringify rid accountId e =
        ViewCallError rid
          (str ''wasm execution failed with error: FunctionCallError(HostError(GuestPanic { panic_msg: ''
           @ stringify (err_message e) @ str ''}))''))
   \<and> (\<not> is_not_a_function (error_toString e) \<and> err_code e = Some (str ''codeNotFound'') \<longrightarrow>
      handleError stringify rid accountId e =
        ViewCallError rid
          (str ''wasm execution failed with error: FunctionCallError(CompilationError(CodeDoesNotExist { account_id: AccountId(''
           @ str [CHR 0x22] @ accountId @ str [CHR 0x22] @ str '') }))''))
   \<and> (\<not> is_not_a_function (error_toString e) \<and> err_code e = Some (str ''accountNotFound'') \<longrightarrow>
      handleError stringify rid accountId e =
        LegacyError rid (str ''account '' @ accountId @ str '' does not exist while viewing''))
   \<and> (\<not> is_not_a_function (error_toString e)
        \<and> err_code e \<notin> Some ` set [str ''notImplemented'', str ''panic'', str ''abort'',
                                      str ''codeNotFound'', str ''accountNotFound''] \<longrightarrow>
      handleError stringify rid accountId e = HttpThrow 400 (error_toString e))
   \<and> (is_not_a_function (err_message e) \<longrightarrow>
      runViewMethod is_json methodName (Inl e) =
        HttpThrow 404 (str ''method '' @ methodName @ str '' not found''))
   \<and> (\<not> is_not_a_function (err_message e) \<and> is_abort (err_message e) \<longrightarrow>
      runViewMethod is_json methodName (Inl e) = HttpThrow 400 (err_message e))
   \<and> (\<not> is_not_a_function (err_message e) \<and> \<not> is_abort (err_message e) \<longrightarrow>
      runViewMethod is_json methodName (Inl e) = Rethrown e)"
  unfolding handleError_def runViewMethod_def Let_def
  using tag_distinct by auto


theorem handlers_by_case_witness:
  "is_not_a_function (error_toString demo_error_method)
   \<and> (handleError quoted (1::nat) (str ''app.near'') demo_error_method :: (nat, bytes) response)
       = ViewCallError 1
          (str ''wasm execution failed with error: FunctionCallError(MethodResolveError(MethodNotFound))'')
   \<and> \<not> is_not_a_function (error_toString demo_error_tagged)
   \<and> err_code demo_error_tagged = Some (str ''codeNotFound'')
   \<and> (handleError quoted (1::nat) (str ''app.near'') demo_error_tagged :: (nat, bytes) response)
       = ViewCallError 1
          (str ''wasm execution failed with error: FunctionCallError(CompilationError(CodeDoesNotExist { account_id: AccountId(''
           @ str [CHR 0x22] @ str ''app.near'' @ str [CHR 0x22] @ str '') }))'')
   \<and> \<not> is_not_a_function (error_toString undefined_toString)
   \<and> err_code undefined_toString = None
   \<and> (handleError quoted (1::nat) (str ''app.near'') undefined_toString :: (nat, bytes) response)
       = HttpThrow 400 (error_toString undefined_toString)
   \<and> \<not> is_not_a_function (err_message undefined_toString)
   \<and> \<not> is_abort (err_message undefined_toString)
   \<and> (runViewMethod (\<lambda>b. True) (str ''hello'') (Inl undefined_toString) :: (nat, bytes) response)
       = Rethrown undefined_toString"
proof -
  have m: "is_not_a_function (error_toString demo_error_method)"
    by code_simp
  have t1: "\<not> is_not_a_function (error_toString demo_error_tagged)"
    by code_simp
  have t2: "err_code demo_error_tagged = Some (str ''codeNotFound'')"
    by (simp add: demo_error_tagged_def)
  have u1: "\<not> is_not_a_function (error_toString undefined_toString)"
    by code_simp
  have u2: "err_code undefined_toString = None"
    by (simp add: undefined_toString_def TypeError_def)
  have u3: "\<not> is_not_a_function (err_message undefined_toString)"
    by code_simp
  have u4: "\<not> is_abort (err_message undefined_toString)"
    by code_simp
  note a = handlers_by_case [where e = demo_error_method and stringify = quoted
      and rid = "1::nat" and accountId = "str ''app.near''"]
  note b = handlers_by_case [where e = demo_error_tagged and stringify = quoted
      and rid = "1::nat" and accountId = "str ''app.near''"]
  note c = handlers_by_case [where e = undefined_toString and stringify = quoted
      and rid = "1::nat" and accountId = "str ''app.near''" and is_json = "\<lambda>b. True"
      and methodName = "str ''hello''"]
  from a m have a': "(handleError quoted (1::nat) (str ''app.near'') demo_error_method
        :: (nat, bytes) response)
       = ViewCallError 1
          (str ''wasm execution failed with error: FunctionCallError(MethodResolveError(MethodNotFound))'')"
    by blast
  from b t1 t2 have b': "(handleError quoted (1::nat) (str ''app.near'') demo_error_tagged
        :: (nat, bytes) response)
       = ViewCallError 1
          (str ''wasm execution failed with error: FunctionCallError(CompilationError(CodeDoesNotExist { account_id: AccountId(''
           @ str [CHR 0x22] @ str ''app.near'' @ str [CHR 0x22] @ str '') }))'')"
    by blast
  have u5: "err_code undefined_toString \<notin> Some ` set [str ''notImplemented'', str ''panic'',
      str ''abort'', str ''codeNotFound'', str ''accountNotFound'']"
    using u2 by simp
  from c u1 u5 have c': "(handleError quoted (1::nat) (str ''app.near'') undefined_toString
        :: (nat, bytes) response) = HttpThrow 400 (error_toString undefined_toString)"
    by blast
  from c u3 u4 have c'': "(runViewMethod (\<lambda>b. True) (str ''hello'') (Inl undefined_toString)
        :: (nat, bytes) response) = Rethrown undefined_toString"
    by blast
  show ?thesis
    using m a' t1 t2 b' u1 u2 c' u3 u4 c'' by blast
qed

text \<open>
  Claim C8 as stated fails. The \<^verbatim>\<open>TypeError\<close> that a view call without code raises has no
  code, so it is none of the stable tags; \<^verbatim>\<open>handleError\<close> answers it with HTTP 400 whose
  message is the exception's own text, and \<^verbatim>\<open>runViewMethod\<close> throws the exception on
  as it is.
\<close>

theorem handlers_structured_counterexample:
  "(handleError quoted (1::nat) (str ''app.near'') undefined_toString :: (nat, bytes) response)
     = HttpThrow 400 (str ''TypeError: Cannot read properties of undefined (reading 'toString')'')
   \<and> error_toString undefined_toString
     = str ''TypeError: Cannot read properties of undefined (reading 'toString')''
   \<and> exposes_exception
        (handleError quoted (1::nat) (str ''app.near'') undefined_toString :: (nat, bytes) response)
        undefined_toString
   \<and> err_code undefined_toString \<notin> Some ` set stable_tags
   \<and> exposes_exception
        (runViewMethod (\<lambda>b. True) (str ''hello'') (Inl undefined_toString) :: (nat, bytes) response)
        undefined_toString"
proof -
  have a: "(handleError quoted (1::nat) (str ''app.near'') undefined_toString
        :: (nat, bytes) response)
     = HttpThrow 400 (str ''TypeError: Cannot read properties of undefined (reading 'toString')'')"
    by code_simp
  have b: "error_toString undefined_toString
     = str ''TypeError: Cannot read properties of undefined (reading 'toString')''"
    by code_simp
  have c: "err_code undefined_toString \<notin> Some ` set stable_tags"
    by (simp add: undefined_toString_def TypeError_def)
  have d: "(runViewMethod (\<lambda>b. True) (str ''hello'') (Inl undefined_toString)
        :: (nat, bytes) response) = Rethrown undefined_toString"
    by code_simp
  have "exposes_exception
      (HttpThrow 400 (str ''TypeError: Cannot read properties of undefined (reading 'toString')'')
         :: (nat, bytes) response) undefined_toString"
    using b by (simp add: exposes_exception_def)
  then have e1: "exposes_exception
        (handleError quoted (1::nat) (str ''app.near'') undefined_toString :: (nat, bytes) response)
        undefined_toString"
    by (simp only: a)
  have "exposes_exception (Rethrown undefined_toString :: (nat, bytes) response) undefined_toString"
    by (simp add: exposes_exception_def)
  then have e2: "exposes_exception
        (runViewMethod (\<lambda>b. True) (str ''hello'') (Inl undefined_toString) :: (nat, bytes) response)
        undefined_toString"
    by (simp only: d)
  show ?thesis
    using a b e1 c e2 by blast
qed

subsection \<open>Scanning storage keys\<close>


lemma find_in_set: "find P xs = Some x \<Longrightarrow> x \<in> set xs \<and> P x"
  by (induction xs) (auto split: if_splits)

lemma lru_get_subset: "set (snd (lru_get now k c)) \<subseteq> set c"
proof (cases "find (\<lambda>e. ekey e = k) c")
  case None
  then show ?thesis by (simp add: lru_get_def)
next
  case (Some e)
  then have "e \<in> set c" using find_in_set by fast
  then show ?thesis using Some by (auto simp: lru_get_def)
qed

lemma lru_get_Some:
  assumes "fst (lru_get now k c) = Some v"
  shows "\<exists>e \<in> set c. ekey e = k \<and> evalue e = v"
proof (cases "find (\<lambda>e. ekey e = k) c")
  case None
  then show ?thesis using assms by (simp add: lru_get_def)
next
  case (Some e)
  then have "e \<in> set c \<and> ekey e = k" using find_in_set by fast
  moreover have "evalue e = v" using assms Some by (simp add: lru_get_def split: if_splits)
  ultimately show ?thesis by blast
qed

lemma lru_set_subset:
  "set (lru_set now k v maxAge c)
     \<subseteq> insert (Entry k v (if maxAge \<noteq> 0 then now else 0) maxAge) (set c)"
proof
  fix e assume "e \<in> set (lru_set now k v maxAge c)"
  then have "e \<in> set (Entry k v (if maxAge \<noteq> 0 then now else 0) maxAge
      # filter (\<lambda>e'. ekey e' \<noteq> k) c)"
    unfolding lru_set_def by (rule in_set_takeD)
  then show "e \<in> insert (Entry k v (if maxAge \<noteq> 0 then now else 0) maxAge) (set c)"
    by auto
qed


lemma holds_expected_subset:
  "holds_expected ex c \<Longrightarrow> set c' \<subseteq> set c \<Longrightarrow> holds_expected ex c'"
  unfolding holds_expected_def by blast

lemma holds_expected_insert:
  assumes "single_valued_list ex" "holds_expected ex c" "(k, v) \<in> set ex"
    and "set c' \<subseteq> insert (Entry k v t a) (set c)"
  shows "holds_expected ex c'"
  unfolding holds_expected_def
proof (intro ballI impI)
  fix p e assume p: "p \<in> set ex" and e: "e \<in> set c'" and key: "ekey e = fst p"
  from e assms(4) have "e = Entry k v t a \<or> e \<in> set c" by blast
  then show "evalue e = snd p"
  proof
    assume new: "e = Entry k v t a"
    then have "fst p = fst (k, v)" using key by simp
    with assms(1,3) p have "snd p = snd (k, v)"
      unfolding single_valued_list_def by blast
    with new show ?thesis by simp
  next
    assume "e \<in> set c"
    with assms(2) p key show ?thesis unfolding holds_expected_def by blast
  qed
qed

lemma withRedis_expected:
  assumes sv: "single_valued_list ex"
    and inv: "holds_expected ex c"
    and mem: "(cacheKey_of pb name args, v) \<in> set ex"
    and v: "fn r args = v"
  shows "fst (withRedis name ce fn pb args now r c) = v
       \<and> holds_expected ex (snd (withRedis name ce fn pb args now r c))"
proof (cases "fst (lru_get now (cacheKey_of pb name args) c)")
  case None
  let ?k = "cacheKey_of pb name args"
  let ?c' = "snd (lru_get now ?k c)"
  let ?age = "if ce then BLOCK_INDEX_CACHE_TIME else 0"
  have inv': "holds_expected ex ?c'"
    using inv lru_get_subset by (rule holds_expected_subset)
  have "holds_expected ex (lru_set now ?k v ?age ?c')"
    using sv inv' mem lru_set_subset by (rule holds_expected_insert)
  then show ?thesis
    by (simp add: withRedis_miss [OF None] v)
next
  case (Some p)
  let ?k = "cacheKey_of pb name args"
  obtain c' where g: "lru_get now ?k c = (Some p, c')"
    using Some by (cases "lru_get now ?k c") auto
  from lru_get_Some [OF Some] obtain e where e: "e \<in> set c" "ekey e = ?k" "evalue e = p"
    by blast
  have "evalue e = snd (?k, v)"
    using inv mem e(1,2) unfolding holds_expected_def by (metis fst_conv)
  with e(3) have p: "p = v" by simp
  have "set c' \<subseteq> set c"
    using lru_get_subset [of now ?k c] g by simp
  with inv have "holds_expected ex c'"
    by (rule holds_expected_subset)
  with p show ?thesis
    by (simp add: withRedis_hit [OF g])
qed

lemma lookup_revisions_expected:
  assumes sv: "single_valued_list ex"
    and mem: "\<forall>k \<in> set ks.
        (cacheKey_of pb (str ''getLatestDataBlockHash'') [Buffer k, Decimal H],
         getLatestDataBlockHash r k H) \<in> set ex"
    and inv: "holds_expected ex c"
  shows "fst (lookup_revisions pb now r H ks c) = map (\<lambda>k. getLatestDataBlockHash r k H) ks
       \<and> holds_expected ex (snd (lookup_revisions pb now r H ks c))"
  using mem inv
proof (induction ks arbitrary: c)
  case Nil
  then show ?case by simp
next
  case (Cons k ks)
  let ?step = "exports_getLatestDataBlockHash pb k H now r c"
  have m: "(cacheKey_of pb (str ''getLatestDataBlockHash'') [Buffer k, Decimal H],
      getLatestDataBlockHash r k H) \<in> set ex"
    using Cons.prems(1) by simp
  have step: "fst ?step = getLatestDataBlockHash r k H \<and> holds_expected ex (snd ?step)"
    unfolding exports_getLatestDataBlockHash_def export_def
    by (rule withRedis_expected
        [where fn = "\<lambda>r args. getLatestDataBlockHash r k H", OF sv Cons.prems(2) m refl])
  have rest: "\<forall>k \<in> set ks.
        (cacheKey_of pb (str ''getLatestDataBlockHash'') [Buffer k, Decimal H],
         getLatestDataBlockHash r k H) \<in> set ex"
    using Cons.prems(1) by simp
  from Cons.IH [OF rest, of "snd ?step"] step
  show ?case
    by (simp add: case_prod_beta)
qed

lemma lookup_values_expected:
  assumes sv: "single_valued_list ex"
    and mem: "\<forall>k \<in> set ks. \<forall>b. getLatestDataBlockHash r k H = Inr b \<and> truthy b \<longrightarrow>
        (cacheKey_of pb (str ''getData'') [Buffer k, b], getData_js r k b) \<in> set ex"
    and inv: "holds_expected ex c"
  shows "fst (lookup_values pb now r (zip ks (map (\<lambda>k. getLatestDataBlockHash r k H) ks)) c)
           = map (\<lambda>k. value_promise r k H) ks
       \<and> holds_expected ex
           (snd (lookup_values pb now r (zip ks (map (\<lambda>k. getLatestDataBlockHash r k H) ks)) c))"
  using mem inv
proof (induction ks arbitrary: c)
  case Nil
  then show ?case by simp
next
  case (Cons k ks)
  have rest: "\<forall>k \<in> set ks. \<forall>b. getLatestDataBlockHash r k H = Inr b \<and> truthy b \<longrightarrow>
        (cacheKey_of pb (str ''getData'') [Buffer k, b], getData_js r k b) \<in> set ex"
    using Cons.prems(1) by simp
  show ?case
  proof (cases "getLatestDataBlockHash r k H")
    case (Inl e)
    with Cons.IH [OF rest Cons.prems(2)] show ?thesis
      by (simp add: case_prod_beta value_promise_def)
  next
    case (Inr b)
    show ?thesis
    proof (cases "truthy b")
      case False
      with Inr Cons.IH [OF rest Cons.prems(2)] show ?thesis
        by (simp add: case_prod_beta value_promise_def)
    next
      case True
      let ?step = "exports_getData pb k b now r c"
      have m: "(cacheKey_of pb (str ''getData'') [Buffer k, b], getData_js r k b) \<in> set ex"
        using Cons.prems(1) Inr True by simp
      have step: "fst ?step = getData_js r k b \<and> holds_expected ex (snd ?step)"
        unfolding exports_getData_def export_def
        by (rule withRedis_expected
            [where fn = "\<lambda>r args. getData_js r k b", OF sv Cons.prems(2) m refl])
      from Cons.IH [OF rest, of "snd ?step"] step Inr True
      show ?thesis
        by (simp add: case_prod_beta value_promise_def)
    qed
  qed
qed


lemma expected_rev_mem:
  "k \<in> set ks \<Longrightarrow>
     (cacheKey_of pb (str ''getLatestDataBlockHash'') [Buffer k, Decimal H],
      getLatestDataBlockHash r k H) \<in> set (expected_lookups pb r H ks)"
  unfolding expected_lookups_def by simp

lemma expected_val_mem:
  assumes "k \<in> set ks" "getLatestDataBlockHash r k H = Inr b" "truthy b"
  shows "(cacheKey_of pb (str ''getData'') [Buffer k, b], getData_js r k b)
           \<in> set (expected_lookups pb r H ks)"
proof -
  have "(cacheKey_of pb (str ''getData'') [Buffer k, b], getData_js r k b)
      \<in> set (case getLatestDataBlockHash r k H of
           Inl e \<Rightarrow> []
         | Inr b \<Rightarrow>
             if truthy b
             then [(cacheKey_of pb (str ''getData'') [Buffer k, b], getData_js r k b)]
             else [])"
    using assms(2,3) by simp
  then show ?thesis
    unfolding expected_lookups_def using assms(1) by auto
qed

lemma data_prefix: "utf8 (str ''data:'') = ''data:''"
  using utf8_str_append [of "''data:''" "[]"] by simp

lemma data_value_prefix: "utf8 (str ''data-value:'') = ''data-value:''"
  using utf8_str_append [of "''data-value:''" "[]"] by simp

lemma colon_bytes: "utf8 (str '':'') = '':''"
  using utf8_str_append [of "'':''" "[]"] by simp

lemma value_promise_stored:
  assumes "fault r = None"
  shows "value_promise r k H = Inr (stored_value r k H)"
proof (cases "zrevrangebyscore (zsets r (''data:'' @ k)) H 0 1")
  case Nil
  then show ?thesis
    using assms
    by (simp add: value_promise_def getLatestDataBlockHash_def redis_zrevrangebyscore_def
        data_prefix first_of_def truthy_def stored_value_def)
next
  case (Cons R rest)
  then show ?thesis
    using assms
    by (simp add: value_promise_def getLatestDataBlockHash_def redis_zrevrangebyscore_def
        data_prefix first_of_def truthy_def stored_value_def getData_js_def getData_def
        redis_get_def data_value_prefix colon_bytes payload_at_def)
qed

lemma promise_all_Inr: "promise_all (map Inr xs) = Inr xs"
  by (induction xs) simp_all

lemma scanDataKeys_result:
  assumes f: "fault r = None"
    and reply: "scan_reply r it (utf8 (str ''data:'' @ C @ str '':'' @ pat)) limit = (nxt, keys)"
    and agrees: "cache_agrees pb r H (map (drop 5) keys) c"
  shows "fst (scanDataKeys pb now r C H pat it limit c)
           = Inr (Scan nxt (zip (map (drop (length C + 1)) (map (drop 5) keys))
                               (map (\<lambda>k. stored_value r k H) (map (drop 5) keys))))"
proof -
  let ?ks = "map (drop 5) keys"
  let ?ex = "expected_lookups pb r H ?ks"
  from agrees have sv: "single_valued_list ?ex" and inv: "holds_expected ?ex c"
    by (simp_all add: cache_agrees_def)
  have m1: "\<forall>k \<in> set ?ks.
        (cacheKey_of pb (str ''getLatestDataBlockHash'') [Buffer k, Decimal H],
         getLatestDataBlockHash r k H) \<in> set ?ex"
    using expected_rev_mem by blast
  have m2: "\<forall>k \<in> set ?ks. \<forall>b. getLatestDataBlockHash r k H = Inr b \<and> truthy b \<longrightarrow>
        (cacheKey_of pb (str ''getData'') [Buffer k, b], getData_js r k b) \<in> set ?ex"
    using expected_val_mem by blast
  let ?p1 = "lookup_revisions pb now r H ?ks c"
  have p1: "fst ?p1 = map (\<lambda>k. getLatestDataBlockHash r k H) ?ks"
    and inv1: "holds_expected ?ex (snd ?p1)"
    using lookup_revisions_expected [OF sv m1 inv] by simp_all
  let ?p2 = "lookup_values pb now r (zip ?ks (fst ?p1)) (snd ?p1)"
  have p2: "fst ?p2 = map (\<lambda>k. value_promise r k H) ?ks"
    unfolding p1 using lookup_values_expected [OF sv m2 inv1] by simp
  have vals: "fst ?p2 = map Inr (map (\<lambda>k. stored_value r k H) ?ks)"
    unfolding p2 by (simp add: value_promise_stored [OF f])
  have len: "length (str ''data:'') = 5"
    by (simp add: str_def)
  show ?thesis
    using f reply vals
    by (simp add: scanDataKeys_def redis_scan_def len case_prod_beta promise_all_Inr Let_def
        del: map_map)
qed



lemma join_Cons_nth: "i < length x \<Longrightarrow> join sep (x # xs) ! i = x ! i"
  by (cases xs) (simp_all add: nth_append)

lemma operation_keys_differ:
  "cacheKey_of pb (str ''getLatestDataBlockHash'') as \<noteq> cacheKey_of pb (str ''getData'') bs"
proof
  assume eq: "cacheKey_of pb (str ''getLatestDataBlockHash'') as = cacheKey_of pb (str ''getData'') bs"
  have "cacheKey_of pb (str ''getLatestDataBlockHash'') as ! 3 = str ''getLatestDataBlockHash'' ! 3"
    unfolding cacheKey_of_def by (rule join_Cons_nth) (simp add: str_def)
  moreover have "cacheKey_of pb (str ''getData'') bs ! 3 = str ''getData'' ! 3"
    unfolding cacheKey_of_def by (rule join_Cons_nth) (simp add: str_def)
  ultimately have "str ''getLatestDataBlockHash'' ! 3 = str ''getData'' ! 3"
    using eq by simp
  then show False by (simp add: str_def)
qed

lemma cache_agrees_single: "cache_agrees pb r H [k] []"
proof (cases "getLatestDataBlockHash r k H")
  case (Inl e)
  then show ?thesis
    by (simp add: cache_agrees_def holds_expected_def single_valued_list_def expected_lookups_def)
next
  case (Inr b)
  then show ?thesis
    using operation_keys_differ [of pb "[Buffer k, Decimal H]" "[Buffer k, b]"]
    by (auto simp: cache_agrees_def holds_expected_def single_valued_list_def
        expected_lookups_def)
qed


text \<open>
  The two slices count code units: for the contract identifier U+00E9 (one code unit, two
  bytes in UTF-8) and the stored key \<^verbatim>\<open>data:\<close>, C3 A9, \<^verbatim>\<open>:k\<close>, the second slice drops two bytes
  and leaves \<^verbatim>\<open>:k\<close>.
\<close>

lemma scanDataKeys_code_units:
  "scan_reply accent_store 0 (utf8 (str ''data:'' @ [0xE9] @ str '':'' @ str ''*'')) 10
     = (0, [''data:'' @ utf8 [0xE9] @ '':'' @ ''k''])
   \<and> utf8 [0xE9] = [CHR 0xC3, CHR 0xA9]
   \<and> fst (scanDataKeys ascii_pretty 0 accent_store [0xE9] 100 (str ''*'') 0 10 [])
       = Inr (Scan 0 [('':k'', Buffer ''v'')])"
proof -
  have u: "utf8 [0xE9] = [CHR 0xC3, CHR 0xA9]"
    by code_simp
  have f: "fault accent_store = None"
    by (simp add: accent_store_def)
  have a: "scan_reply accent_store 0 (utf8 (str ''data:'' @ [0xE9] @ str '':'' @ str ''*'')) 10
     = (0, [''data:'' @ utf8 [0xE9] @ '':'' @ ''k''])"
    by (simp add: accent_store_def)
  have c: "cache_agrees ascii_pretty accent_store 100
      (map (drop 5) [''data:'' @ utf8 [0xE9] @ '':'' @ ''k'']) []"
    using cache_agrees_single [of ascii_pretty accent_store 100 "utf8 [0xE9] @ '':'' @ ''k''"]
    by simp
  have z: "zrevrangebyscore (zsets accent_store (''data:'' @ utf8 [0xE9] @ '':k'')) 100 0 1 = [''h1'']"
    by (simp add: accent_store_def zrevrangebyscore_def)
  have v: "stored_value accent_store (utf8 [0xE9] @ '':k'') 100 = Buffer ''v''"
    using z by (simp add: stored_value_def payload_at_def accent_store_def)
  have d: "drop (length [0xE9 :: 16 word] + 1) (utf8 [0xE9] @ '':k'') = '':k''"
    unfolding u by simp
  have "fst (scanDataKeys ascii_pretty 0 accent_store [0xE9] 100 (str ''*'') 0 10 [])
       = Inr (Scan 0 (zip (map (drop (length [0xE9 :: 16 word] + 1))
                             (map (drop 5) [''data:'' @ utf8 [0xE9] @ '':'' @ ''k'']))
                          (map (\<lambda>k. stored_value accent_store k 100)
                             (map (drop 5) [''data:'' @ utf8 [0xE9] @ '':'' @ ''k'']))))"
    using f a c by (rule scanDataKeys_result)
  then have r: "fst (scanDataKeys ascii_pretty 0 accent_store [0xE9] 100 (str ''*'') 0 10 [])
       = Inr (Scan 0 [('':k'', Buffer ''v'')])"
    using v d by simp
  show ?thesis
    using a u r by blast
qed

subsection \<open>Concurrent calls\<close>

text \<open>
  One call that continues three times on its own goes through the lookup, the fetch and the
  compilation, and leaves the module cache as \<^verbatim>\<open>runContract\<close> does.
\<close>

lemma runContract_as_steps:
  assumes "fault r = None"
    and "latest_block_height r = Some H"
    and "zrevrangebyscore (zsets r (''code:'' @ utf8 C)) H 0 1 = R # rest"
  shows "module_cache (interleave h r [0, 0, 0]
           \<lparr> module_cache = contractCache, compile_log = lg, calls = [call_for C R] \<rparr>)
         = snd (runContract h r C methodName methodArgs contractCache)"
proof -
  have key: "utf8 (str ''code:'' @ C) = ''code:'' @ utf8 C"
    by (rule utf8_str_append) simp
  show ?thesis
    using assms
    by (simp add: runContract_def redis_get_latest_block_height_def redis_zrevrangebyscore_def
        key first_of_def call_for_def continue_call_def Let_def redis_get_def
        split: option.splits sum.splits jsval.splits)
qed

























subsection \<open>The exported revision lookup\<close>




subsection \<open>The exported scan\<close>













lemma data_value_not_expiring: "str ''getData'' \<notin> set cacheExpiresList"
  by (simp add: cacheExpiresList_def str_def)






end
